theory Spec2Isabelle
  imports Complex_Main
begin

section \<open>Values, errors and decimal keys\<close>

text \<open>
  The controller works on JSON-like Python values: the capability template is a nested
  dictionary loaded from a configuration file, and the reconciler stores strings, Python
  integers and floating-point numbers into it. Floating-point numbers are only ever copied,
  never computed with, so their carrier is the type parameter \<open>'f\<close>.
\<close>

datatype 'f json =
    JNull
  | JBool bool
  | JInt int
  | JFloat 'f
  | JStr string
  | JList "'f json list"
  | JObj "(string \<times> 'f json) list"

datatype error = KeyError | IndexError

text \<open>Python's \<open>str(n)\<close> for a non-negative integer: its decimal digits.\<close>

definition digit_char :: "nat \<Rightarrow> char" where
  "digit_char d = ''0123456789'' ! d"

fun str :: "nat \<Rightarrow> string" where
  "str n = (if n < 10 then [digit_char n] else str (n div 10) @ [digit_char (n mod 10)])"

declare str.simps [simp del]

text \<open>Reading a decimal string back; used only to show that \<open>str\<close> never maps two numbers
  to one key.\<close>

definition digit_val :: "char \<Rightarrow> nat" where
  "digit_val c = of_char c - 48"

definition parse_nat :: "string \<Rightarrow> nat" where
  "parse_nat s = foldl (\<lambda>a c. 10 * a + digit_val c) 0 s"

text \<open>A \<open>for\<close> loop whose body may raise: the first exception ends the loop.\<close>

fun for_each :: "('s \<Rightarrow> 'a \<Rightarrow> error + 's) \<Rightarrow> 's \<Rightarrow> 'a list \<Rightarrow> error + 's" where
  "for_each body s [] = Inr s"
| "for_each body s (x # xs) =
     (case body s x of Inl e \<Rightarrow> Inl e | Inr s' \<Rightarrow> for_each body s' xs)"

section \<open>The capability template and the lookup tables\<close>

text \<open>
  \<open>capabilities\<close> is the root container of the configuration: the sections \<open>input\<close> and
  \<open>output\<close>, each a dictionary from category name to a dictionary from device id (a decimal
  string) to an entry, itself a dictionary of properties.
\<close>

type_synonym 'f entry = "string \<rightharpoonup> 'f json"
type_synonym 'f category = "string \<rightharpoonup> 'f entry"
type_synonym 'f sect = "string \<rightharpoonup> 'f category"

record 'f capabilities =
  input_caps :: "'f sect"
  output_caps :: "'f sect"

definition TRANSMISSION_TYPES :: "string \<rightharpoonup> string" where
  "TRANSMISSION_TYPES = [''position'' \<mapsto> ''servo'', ''motor'' \<mapsto> ''motor'']"

definition SENSING_TYPES :: "string \<rightharpoonup> string" where
  "SENSING_TYPES = [''framequat'' \<mapsto> ''gyro'', ''distance'' \<mapsto> ''proximity'',
     ''rangefinder'' \<mapsto> ''camera'']"

section \<open>Descriptors discovered in the scene\<close>

text \<open>
  A Python dictionary keeps its keys in insertion order, and assigning to a key that is
  already there keeps the key's place. \<open>dict_set\<close> is that assignment on an association
  list with distinct keys.
\<close>

fun dict_set :: "'k \<Rightarrow> 'v \<Rightarrow> ('k \<times> 'v) list \<Rightarrow> ('k \<times> 'v) list" where
  "dict_set k v [] = [(k, v)]"
| "dict_set k v ((k', v') # kvs) =
     (if k = k' then (k, v) # kvs else (k', v') # dict_set k v kvs)"

text \<open>
  The sensor loop of the main block reads, for each sensor of the loaded model, its name and
  raw type code; for raw type 7 the name loses its last four characters (\<open>sensor_name[:-4]\<close>,
  which is the empty string for a name of at most four characters). The declared kind is
  looked up under the resulting name in the kinds read from the scene file (\<open>KeyError\<close> when
  the name is not there), and the descriptor is stored under that name.
\<close>

definition descriptor_name :: "int \<Rightarrow> string \<Rightarrow> string" where
  "descriptor_name test_sensor_type sensor_name =
     (if test_sensor_type = 7 then take (length sensor_name - 4) sensor_name else sensor_name)"

definition sensor_information_step ::
  "(string \<rightharpoonup> string) \<Rightarrow> (string \<times> string) list \<Rightarrow> string \<times> int
     \<Rightarrow> error + (string \<times> string) list" where
  "sensor_information_step xml_input sensor_information sensor =
     (case sensor of (sensor_name, test_sensor_type) \<Rightarrow>
        (case xml_input (descriptor_name test_sensor_type sensor_name) of
           None \<Rightarrow> Inl KeyError
         | Some sensor_type \<Rightarrow>
             Inr (dict_set (descriptor_name test_sensor_type sensor_name) sensor_type
                    sensor_information)))"

definition build_sensor_information ::
  "(string \<rightharpoonup> string) \<Rightarrow> (string \<times> int) list \<Rightarrow> error + (string \<times> string) list" where
  "build_sensor_information xml_input model_sensors =
     for_each (sensor_information_step xml_input) [] model_sensors"

text \<open>
  The actuator loop does the same for the actuators, without renaming, and keeps the control
  range \<open>model.actuator_ctrlrange[i]\<close> (a pair of floating-point numbers) with the kind.
\<close>

definition actuator_information_step ::
  "(string \<rightharpoonup> string) \<Rightarrow> (string \<times> string \<times> 'f \<times> 'f) list \<Rightarrow> string \<times> 'f \<times> 'f
     \<Rightarrow> error + (string \<times> string \<times> 'f \<times> 'f) list" where
  "actuator_information_step xml_output actuator_information actuator =
     (case actuator of (actuator_name, range_control) \<Rightarrow>
        (case xml_output actuator_name of
           None \<Rightarrow> Inl KeyError
         | Some actuator_type \<Rightarrow>
             Inr (dict_set actuator_name (actuator_type, range_control) actuator_information)))"

definition build_actuator_information ::
  "(string \<rightharpoonup> string) \<Rightarrow> (string \<times> 'f \<times> 'f) list
     \<Rightarrow> error + (string \<times> string \<times> 'f \<times> 'f) list" where
  "build_actuator_information xml_output model_actuators =
     for_each (actuator_information_step xml_output) [] model_actuators"

section \<open>Reconciliation\<close>

text \<open>
  The variables the two reconciliation loops share: the capabilities being rewritten, the
  list of categories that were seen, the one running counter \<open>increment\<close>, and the base
  records of the sensor and of the actuator loop. \<open>copy.deepcopy\<close> makes every stored
  entry independent of the base record it was copied from, which is what plain values are.
\<close>

record 'f recon =
  capabilities :: "'f capabilities"
  list_to_not_delete_device :: "string list"
  increment :: nat
  temp_copy_property_input :: "'f entry"
  temp_copy_property_output :: "'f entry"

definition store_input :: "string \<Rightarrow> string \<Rightarrow> 'f entry \<Rightarrow> 'f capabilities \<Rightarrow> 'f capabilities" where
  "store_input device_name device_id e caps =
     caps\<lparr>input_caps := (input_caps caps)(device_name \<mapsto>
        (case input_caps caps device_name of None \<Rightarrow> Map.empty | Some devs \<Rightarrow> devs)(device_id \<mapsto> e))\<rparr>"

definition store_output :: "string \<Rightarrow> string \<Rightarrow> 'f entry \<Rightarrow> 'f capabilities \<Rightarrow> 'f capabilities" where
  "store_output device_name device_id e caps =
     caps\<lparr>output_caps := (output_caps caps)(device_name \<mapsto>
        (case output_caps caps device_name of None \<Rightarrow> Map.empty | Some devs \<Rightarrow> devs)(device_id \<mapsto> e))\<rparr>"

text \<open>
  One iteration of the sensor loop. \<open>SENSING_TYPES.get(kind, None)\<close> gives \<open>None\<close> for an
  unknown kind, and \<open>None\<close> is no key of a section, so both an unknown kind and a category
  missing from the section skip the device. Reading the template entry at index 0 raises
  \<open>KeyError\<close> when the category has no entry \<open>"0"\<close>.
\<close>

definition sensor_step :: "'f recon \<Rightarrow> string \<times> string \<Rightarrow> error + 'f recon" where
  "sensor_step st sensor =
     (case sensor of (mujoco_device_name, sensor_type) \<Rightarrow>
        (case SENSING_TYPES sensor_type of
           None \<Rightarrow> Inr st
         | Some device_name \<Rightarrow>
             (case input_caps (capabilities st) device_name of
                None \<Rightarrow> Inr st
              | Some devs \<Rightarrow>
                  (let fresh = (device_name \<notin> set (list_to_not_delete_device st));
                       inc = (if fresh then 0 else increment st + 1);
                       seen = (if fresh then list_to_not_delete_device st @ [device_name]
                               else list_to_not_delete_device st);
                       device_id = str inc
                   in case (if inc = 0
                            then (case devs device_id of None \<Rightarrow> Inl KeyError | Some e \<Rightarrow> Inr e)
                            else Inr (temp_copy_property_input st)) of
                        Inl err \<Rightarrow> Inl err
                      | Inr base \<Rightarrow>
                          (let t = base(''custom_name'' \<mapsto> JStr mujoco_device_name,
                                        ''feagi_index'' \<mapsto> JInt (int inc))
                           in Inr (st\<lparr>capabilities :=
                                         store_input device_name device_id t (capabilities st),
                                       list_to_not_delete_device := seen,
                                       increment := inc,
                                       temp_copy_property_input := t\<rparr>))))))"

text \<open>The kind-specific limits an actuator entry takes from the declared control range.\<close>

definition set_limits :: "string \<Rightarrow> 'f \<times> 'f \<Rightarrow> 'f entry \<Rightarrow> 'f entry" where
  "set_limits device_name range_control e =
     (if device_name = ''servo''
      then e(''max_value'' \<mapsto> JFloat (snd range_control),
             ''min_value'' \<mapsto> JFloat (fst range_control))
      else if device_name = ''motor''
      then e(''max_power'' \<mapsto> JFloat (snd range_control),
             ''rolling_window_len'' \<mapsto> JInt 2)
      else e)"

definition actuator_step :: "'f recon \<Rightarrow> string \<times> string \<times> 'f \<times> 'f \<Rightarrow> error + 'f recon" where
  "actuator_step st actuator =
     (case actuator of (mujoco_device_name, actuator_type, range_control) \<Rightarrow>
        (case TRANSMISSION_TYPES actuator_type of
           None \<Rightarrow> Inr st
         | Some device_name \<Rightarrow>
             (case output_caps (capabilities st) device_name of
                None \<Rightarrow> Inr st
              | Some devs \<Rightarrow>
                  (let fresh = (device_name \<notin> set (list_to_not_delete_device st));
                       inc = (if fresh then 0 else increment st + 1);
                       seen = (if fresh then list_to_not_delete_device st @ [device_name]
                               else list_to_not_delete_device st);
                       device_id = str inc
                   in case (if inc = 0
                            then (case devs device_id of None \<Rightarrow> Inl KeyError | Some e \<Rightarrow> Inr e)
                            else Inr (temp_copy_property_output st)) of
                        Inl err \<Rightarrow> Inl err
                      | Inr base \<Rightarrow>
                          (let t = (set_limits device_name range_control base)
                                     (''custom_name'' \<mapsto> JStr mujoco_device_name,
                                      ''feagi_index'' \<mapsto> JInt (int inc))
                           in Inr (st\<lparr>capabilities :=
                                         store_output device_name device_id t (capabilities st),
                                       list_to_not_delete_device := seen,
                                       increment := inc,
                                       temp_copy_property_output := t\<rparr>))))))"

text \<open>The pruning loop deletes, in both sections, every category that is not in the list.\<close>

definition prune :: "string list \<Rightarrow> 'f capabilities \<Rightarrow> 'f capabilities" where
  "prune seen caps =
     \<lparr>input_caps = input_caps caps |` set seen, output_caps = output_caps caps |` set seen\<rparr>"

text \<open>
  The state before the sensor loop, the state the actuator loop starts from (the counter and
  the actuator base record are reset, the list of seen categories is kept), and the whole
  reconciliation of a template against the descriptors in their dictionary order.
\<close>

definition recon_init :: "'f capabilities \<Rightarrow> 'f recon" where
  "recon_init template =
     \<lparr>capabilities = template, list_to_not_delete_device = [], increment = 0,
      temp_copy_property_input = Map.empty, temp_copy_property_output = Map.empty\<rparr>"

definition sensor_pass :: "'f capabilities \<Rightarrow> (string \<times> string) list \<Rightarrow> error + 'f recon" where
  "sensor_pass template sensor_information =
     for_each sensor_step (recon_init template) sensor_information"

definition actuator_start :: "'f recon \<Rightarrow> 'f recon" where
  "actuator_start st = st\<lparr>temp_copy_property_output := Map.empty, increment := 0\<rparr>"

definition actuator_pass ::
  "'f capabilities \<Rightarrow> (string \<times> string) list \<Rightarrow> (string \<times> string \<times> 'f \<times> 'f) list
     \<Rightarrow> error + 'f recon" where
  "actuator_pass template sensor_information actuator_information =
     (case sensor_pass template sensor_information of
        Inl err \<Rightarrow> Inl err
      | Inr st \<Rightarrow> for_each actuator_step (actuator_start st) actuator_information)"

definition reconcile ::
  "'f capabilities \<Rightarrow> (string \<times> string) list \<Rightarrow> (string \<times> string \<times> 'f \<times> 'f) list
     \<Rightarrow> error + 'f capabilities" where
  "reconcile template sensor_information actuator_information =
     (case actuator_pass template sensor_information actuator_information of
        Inl err \<Rightarrow> Inl err
      | Inr st \<Rightarrow> Inr (prune (list_to_not_delete_device st) (capabilities st)))"

section \<open>The runtime loop: commands and contact forces\<close>

text \<open>
  \<open>data.ctrl[servo_number] = power\<close> on the control array: a negative index counts from the
  end, an index outside the array raises \<open>IndexError\<close>.
\<close>

definition ctrl_set :: "'v list \<Rightarrow> int \<Rightarrow> 'v \<Rightarrow> error + 'v list" where
  "ctrl_set ctrl i v =
     (let n = int (length ctrl); j = (if i < 0 then n + i else i)
      in if 0 \<le> j \<and> j < n then Inr (ctrl[nat j := v]) else Inl IndexError)"

text \<open>
  One of the two loops of \<open>action\<close>, over a payload in its dictionary order: a channel is
  written when \<open>len(data.ctrl) - 1 >= servo_number\<close>.
\<close>

definition apply_channel :: "'v list \<Rightarrow> int \<times> 'v \<Rightarrow> error + 'v list" where
  "apply_channel ctrl kv =
     (case kv of (servo_number, new_power) \<Rightarrow>
        (if int (length ctrl) - 1 \<ge> servo_number then ctrl_set ctrl servo_number new_power
         else Inr ctrl))"

text \<open>
  \<open>action\<close> takes the two payloads the connector library extracts from the inbound message
  (position commands first, then servo commands); an empty payload is skipped.
\<close>

definition action :: "(int \<times> 'v) list \<Rightarrow> (int \<times> 'v) list \<Rightarrow> 'v list \<Rightarrow> error + 'v list" where
  "action recieve_servo_position_data recieve_servo_data ctrl =
     (case (if recieve_servo_position_data \<noteq> []
            then for_each apply_channel ctrl recieve_servo_position_data else Inr ctrl) of
        Inl err \<Rightarrow> Inl err
      | Inr ctrl' \<Rightarrow>
          (if recieve_servo_data \<noteq> [] then for_each apply_channel ctrl' recieve_servo_data
           else Inr ctrl'))"

text \<open>
  The contact-force record starts with the keys \<open>"0"\<close> to \<open>"19"\<close>, each \<open>[0, 0, 0]\<close>. Every
  tick stores, for each active contact \<open>i\<close>, the first three components of its contact force
  under \<open>str(i)\<close>. The force of contact \<open>i\<close> comes from the physics engine and is the parameter
  \<open>force\<close>.
\<close>

definition force_list_init :: "string \<rightharpoonup> 'f json" where
  "force_list_init =
     fold (\<lambda>x fl. fl(str x \<mapsto> JList [JInt 0, JInt 0, JInt 0])) [0..<20] Map.empty"

definition sample_contacts ::
  "(nat \<Rightarrow> 'f \<times> 'f \<times> 'f) \<Rightarrow> nat \<Rightarrow> (string \<rightharpoonup> 'f json) \<Rightarrow> (string \<rightharpoonup> 'f json)" where
  "sample_contacts force ncon force_list =
     fold (\<lambda>i fl. fl(str i \<mapsto>
             (case force i of (fx, fy, fz) \<Rightarrow> JList [JFloat fx, JFloat fy, JFloat fz])))
       [0..<ncon] force_list"

section \<open>A small scene\<close>

text \<open>
  A template with two sensor categories and two actuator categories, each with a default
  entry at index 0, and a scene whose devices are discovered with their categories
  interleaved. The theorems below are exercised on them.
\<close>

definition template_ex :: "real capabilities" where
  "template_ex =
     \<lparr>input_caps =
        [''gyro'' \<mapsto> [''0'' \<mapsto> [''custom_name'' \<mapsto> JStr ''template_gyro'',
                                   ''feagi_index'' \<mapsto> JInt 0]],
         ''proximity'' \<mapsto> [''0'' \<mapsto> [''custom_name'' \<mapsto> JStr ''template_proximity'',
                                        ''feagi_index'' \<mapsto> JInt 0,
                                        ''max_value'' \<mapsto> JFloat 10]]],
      output_caps =
        [''servo'' \<mapsto> [''0'' \<mapsto> [''custom_name'' \<mapsto> JStr ''template_servo'',
                                    ''feagi_index'' \<mapsto> JInt 0,
                                    ''max_value'' \<mapsto> JFloat 180,
                                    ''min_value'' \<mapsto> JFloat 0]],
         ''motor'' \<mapsto> [''0'' \<mapsto> [''custom_name'' \<mapsto> JStr ''template_motor'',
                                    ''feagi_index'' \<mapsto> JInt 0,
                                    ''max_power'' \<mapsto> JFloat 100,
                                    ''rolling_window_len'' \<mapsto> JInt 5]]]\<rparr>"

definition sensors_ex :: "(string \<times> string) list" where
  "sensors_ex = [(''g1'', ''framequat''), (''p1'', ''distance''), (''p2'', ''distance''),
                 (''g2'', ''framequat'')]"

definition actuators_ex :: "(string \<times> string \<times> real \<times> real) list" where
  "actuators_ex = [(''a'', ''position'', - 1, 1), (''b'', ''position'', - 2, 2),
                   (''m'', ''motor'', 0, 5), (''c'', ''position'', - 3, 3)]"

section \<open>Decimal keys are distinct\<close>

lemma digit_val_digit_char: "d < 10 \<Longrightarrow> digit_val (digit_char d) = d"
proof -
  assume "d < 10"
  then have "d \<in> set [0..<10]" by simp
  then have "d \<in> {0, 1, 2, 3, 4, 5, 6, 7, 8, 9}"
    by (simp add: upt_rec numeral_eq_Suc)
  then show ?thesis
    by (auto simp: digit_val_def digit_char_def numeral_eq_Suc)
qed

lemma parse_nat_str: "parse_nat (str n) = n"
proof (induction n rule: str.induct)
  case (1 n)
  show ?case
  proof (cases "n < 10")
    case True
    then show ?thesis
      by (simp add: str.simps [of n] parse_nat_def digit_val_digit_char)
  next
    case False
    with 1 have "parse_nat (str (n div 10)) = n div 10" by simp
    with False show ?thesis
      by (simp add: str.simps [of n] parse_nat_def digit_val_digit_char)
  qed
qed

lemma str_inj: "str m = str n \<longleftrightarrow> m = n"
  by (metis parse_nat_str)

section \<open>Loops and single iterations\<close>

lemma for_each_append:
  "for_each body s (xs @ ys) =
     (case for_each body s xs of Inl e \<Rightarrow> Inl e | Inr s' \<Rightarrow> for_each body s' ys)"
  by (induction xs arbitrary: s) (auto split: sum.splits)

lemma for_each_invariant:
  assumes "for_each body s xs = Inr s'" and "P s"
    and "\<And>a x b. P a \<Longrightarrow> x \<in> set xs \<Longrightarrow> body a x = Inr b \<Longrightarrow> P b"
  shows "P s'"
  using assms
proof (induction xs arbitrary: s)
  case Nil
  then show ?case by simp
next
  case (Cons x xs)
  from Cons.prems(1) obtain m where m: "body s x = Inr m" and r: "for_each body m xs = Inr s'"
    by (auto split: sum.splits)
  have pm: "P m" by (rule Cons.prems(3) [OF Cons.prems(2) _ m]) simp
  show ?case
  proof (rule Cons.IH [OF r pm])
    fix a y b
    assume "P a" "y \<in> set xs" "body a y = Inr b"
    then show "P b" by (intro Cons.prems(3) [of a y b]) simp_all
  qed
qed

lemma store_input_simps:
  "input_caps (store_input c i e caps) =
     (input_caps caps)(c \<mapsto> (case input_caps caps c of None \<Rightarrow> Map.empty | Some d \<Rightarrow> d)(i \<mapsto> e))"
  "output_caps (store_input c i e caps) = output_caps caps"
  by (simp_all add: store_input_def)

lemma store_output_simps:
  "output_caps (store_output c i e caps) =
     (output_caps caps)(c \<mapsto> (case output_caps caps c of None \<Rightarrow> Map.empty | Some d \<Rightarrow> d)(i \<mapsto> e))"
  "input_caps (store_output c i e caps) = input_caps caps"
  by (simp_all add: store_output_def)

text \<open>What one iteration of the sensor loop does, case by case.\<close>

lemma sensor_step_skip:
  "SENSING_TYPES ty = None \<or>
   (\<exists>c. SENSING_TYPES ty = Some c \<and> input_caps (capabilities st) c = None)
   \<Longrightarrow> sensor_step st (n, ty) = Inr st"
  by (auto simp: sensor_step_def)

lemma sensor_step_first:
  assumes "SENSING_TYPES ty = Some c" and "input_caps (capabilities st) c = Some devs"
    and "c \<notin> set (list_to_not_delete_device st)"
  shows "sensor_step st (n, ty) =
     (case devs ''0'' of
        None \<Rightarrow> Inl KeyError
      | Some e \<Rightarrow>
          Inr (st\<lparr>capabilities :=
                     store_input c ''0''
                       (e(''custom_name'' \<mapsto> JStr n, ''feagi_index'' \<mapsto> JInt 0)) (capabilities st),
                   list_to_not_delete_device := list_to_not_delete_device st @ [c],
                   increment := 0,
                   temp_copy_property_input :=
                     e(''custom_name'' \<mapsto> JStr n, ''feagi_index'' \<mapsto> JInt 0)\<rparr>))"
proof -
  have "str 0 = ''0''" by code_simp
  with assms show ?thesis
    by (simp add: sensor_step_def Let_def split: option.splits)
qed

lemma sensor_step_next:
  assumes "SENSING_TYPES ty = Some c" and "input_caps (capabilities st) c = Some devs"
    and "c \<in> set (list_to_not_delete_device st)"
  shows "sensor_step st (n, ty) =
     Inr (st\<lparr>capabilities :=
                store_input c (str (increment st + 1))
                  ((temp_copy_property_input st)
                     (''custom_name'' \<mapsto> JStr n, ''feagi_index'' \<mapsto> JInt (int (increment st + 1))))
                  (capabilities st),
              list_to_not_delete_device := list_to_not_delete_device st,
              increment := increment st + 1,
              temp_copy_property_input :=
                (temp_copy_property_input st)
                  (''custom_name'' \<mapsto> JStr n, ''feagi_index'' \<mapsto> JInt (int (increment st + 1)))\<rparr>)"
  using assms by (simp add: sensor_step_def Let_def)

lemma actuator_step_skip:
  "TRANSMISSION_TYPES ty = None \<or>
   (\<exists>c. TRANSMISSION_TYPES ty = Some c \<and> output_caps (capabilities st) c = None)
   \<Longrightarrow> actuator_step st (n, ty, r) = Inr st"
  by (auto simp: actuator_step_def)

lemma actuator_step_first:
  assumes "TRANSMISSION_TYPES ty = Some c" and "output_caps (capabilities st) c = Some devs"
    and "c \<notin> set (list_to_not_delete_device st)"
  shows "actuator_step st (n, ty, r) =
     (case devs ''0'' of
        None \<Rightarrow> Inl KeyError
      | Some e \<Rightarrow>
          Inr (st\<lparr>capabilities :=
                     store_output c ''0''
                       ((set_limits c r e)(''custom_name'' \<mapsto> JStr n, ''feagi_index'' \<mapsto> JInt 0))
                       (capabilities st),
                   list_to_not_delete_device := list_to_not_delete_device st @ [c],
                   increment := 0,
                   temp_copy_property_output :=
                     (set_limits c r e)(''custom_name'' \<mapsto> JStr n, ''feagi_index'' \<mapsto> JInt 0)\<rparr>))"
proof -
  have "str 0 = ''0''" by code_simp
  with assms show ?thesis
    by (simp add: actuator_step_def Let_def split: option.splits)
qed

lemma actuator_step_next:
  assumes "TRANSMISSION_TYPES ty = Some c" and "output_caps (capabilities st) c = Some devs"
    and "c \<in> set (list_to_not_delete_device st)"
  shows "actuator_step st (n, ty, r) =
     Inr (st\<lparr>capabilities :=
                store_output c (str (increment st + 1))
                  ((set_limits c r (temp_copy_property_output st))
                     (''custom_name'' \<mapsto> JStr n, ''feagi_index'' \<mapsto> JInt (int (increment st + 1))))
                  (capabilities st),
              list_to_not_delete_device := list_to_not_delete_device st,
              increment := increment st + 1,
              temp_copy_property_output :=
                (set_limits c r (temp_copy_property_output st))
                  (''custom_name'' \<mapsto> JStr n, ''feagi_index'' \<mapsto> JInt (int (increment st + 1)))\<rparr>)"
  using assms by (simp add: actuator_step_def Let_def)

lemma sensor_step_recorded:
  assumes c: "SENSING_TYPES ty = Some c" and devs: "input_caps (capabilities st) c = Some devs"
    and step: "sensor_step st (n, ty) = Inr st'"
  shows "capabilities st' =
           store_input c (str (increment st')) (temp_copy_property_input st') (capabilities st)"
    and "set (list_to_not_delete_device st') = insert c (set (list_to_not_delete_device st))"
    and "temp_copy_property_output st' = temp_copy_property_output st"
proof -
  have z: "str 0 = ''0''" by code_simp
  have "capabilities st' =
           store_input c (str (increment st')) (temp_copy_property_input st') (capabilities st) \<and>
        set (list_to_not_delete_device st') = insert c (set (list_to_not_delete_device st)) \<and>
        temp_copy_property_output st' = temp_copy_property_output st"
  proof (cases "c \<in> set (list_to_not_delete_device st)")
    case True
    from step sensor_step_next [OF c devs True, of n]
    have "st' = st\<lparr>capabilities :=
                store_input c (str (increment st + 1))
                  ((temp_copy_property_input st)
                     (''custom_name'' \<mapsto> JStr n, ''feagi_index'' \<mapsto> JInt (int (increment st + 1))))
                  (capabilities st),
              list_to_not_delete_device := list_to_not_delete_device st,
              increment := increment st + 1,
              temp_copy_property_input :=
                (temp_copy_property_input st)
                  (''custom_name'' \<mapsto> JStr n, ''feagi_index'' \<mapsto> JInt (int (increment st + 1)))\<rparr>"
      by simp
    then show ?thesis using True by (simp add: insert_absorb)
  next
    case False
    show ?thesis
    proof (cases "devs ''0''")
      case None
      with step sensor_step_first [OF c devs False, of n] show ?thesis by simp
    next
      case (Some e)
      with step sensor_step_first [OF c devs False, of n]
      have "st' = st\<lparr>capabilities :=
                     store_input c ''0''
                       (e(''custom_name'' \<mapsto> JStr n, ''feagi_index'' \<mapsto> JInt 0)) (capabilities st),
                   list_to_not_delete_device := list_to_not_delete_device st @ [c],
                   increment := 0,
                   temp_copy_property_input :=
                     e(''custom_name'' \<mapsto> JStr n, ''feagi_index'' \<mapsto> JInt 0)\<rparr>"
        by simp
      then show ?thesis by (simp add: z)
    qed
  qed
  then show "capabilities st' =
           store_input c (str (increment st')) (temp_copy_property_input st') (capabilities st)"
    and "set (list_to_not_delete_device st') = insert c (set (list_to_not_delete_device st))"
    and "temp_copy_property_output st' = temp_copy_property_output st"
    by simp_all
qed


lemma actuator_step_recorded:
  assumes c: "TRANSMISSION_TYPES ty = Some c" and devs: "output_caps (capabilities st) c = Some devs"
    and step: "actuator_step st (n, ty, r) = Inr st'"
  shows "capabilities st' =
           store_output c (str (increment st')) (temp_copy_property_output st') (capabilities st)"
    and "set (list_to_not_delete_device st') = insert c (set (list_to_not_delete_device st))"
    and "temp_copy_property_input st' = temp_copy_property_input st"
    and "\<exists>base. temp_copy_property_output st' =
           (set_limits c r base)(''custom_name'' \<mapsto> JStr n,
                                 ''feagi_index'' \<mapsto> JInt (int (increment st')))"
proof -
  have z: "str 0 = ''0''" by code_simp
  have "capabilities st' =
           store_output c (str (increment st')) (temp_copy_property_output st') (capabilities st) \<and>
        set (list_to_not_delete_device st') = insert c (set (list_to_not_delete_device st)) \<and>
        temp_copy_property_input st' = temp_copy_property_input st \<and>
        (\<exists>base. temp_copy_property_output st' =
           (set_limits c r base)(''custom_name'' \<mapsto> JStr n,
                                 ''feagi_index'' \<mapsto> JInt (int (increment st'))))"
  proof (cases "c \<in> set (list_to_not_delete_device st)")
    case True
    from step actuator_step_next [OF c devs True, of n]
    have "st' = st\<lparr>capabilities :=
                store_output c (str (increment st + 1))
                  ((set_limits c r (temp_copy_property_output st))
                     (''custom_name'' \<mapsto> JStr n, ''feagi_index'' \<mapsto> JInt (int (increment st + 1))))
                  (capabilities st),
              list_to_not_delete_device := list_to_not_delete_device st,
              increment := increment st + 1,
              temp_copy_property_output :=
                (set_limits c r (temp_copy_property_output st))
                  (''custom_name'' \<mapsto> JStr n, ''feagi_index'' \<mapsto> JInt (int (increment st + 1)))\<rparr>"
      by simp
    then show ?thesis using True by (auto simp: insert_absorb)
  next
    case False
    show ?thesis
    proof (cases "devs ''0''")
      case None
      with step actuator_step_first [OF c devs False, of n] show ?thesis by simp
    next
      case (Some e)
      with step actuator_step_first [OF c devs False, of n]
      have "st' = st\<lparr>capabilities :=
                     store_output c ''0''
                       ((set_limits c r e)(''custom_name'' \<mapsto> JStr n, ''feagi_index'' \<mapsto> JInt 0)) (capabilities st),
                   list_to_not_delete_device := list_to_not_delete_device st @ [c],
                   increment := 0,
                   temp_copy_property_output :=
                     (set_limits c r e)(''custom_name'' \<mapsto> JStr n, ''feagi_index'' \<mapsto> JInt 0)\<rparr>"
        by simp
      then show ?thesis by (auto simp: z)
    qed
  qed
  then show "capabilities st' =
           store_output c (str (increment st')) (temp_copy_property_output st') (capabilities st)"
    and "set (list_to_not_delete_device st') = insert c (set (list_to_not_delete_device st))"
    and "temp_copy_property_input st' = temp_copy_property_input st"
    and "\<exists>base. temp_copy_property_output st' =
           (set_limits c r base)(''custom_name'' \<mapsto> JStr n,
                                 ''feagi_index'' \<mapsto> JInt (int (increment st')))"
    by simp_all
qed



lemma sensor_step_frame:
  assumes "sensor_step a (n, ty) = Inr b"
  shows "output_caps (capabilities b) = output_caps (capabilities a)"
    and "dom (input_caps (capabilities b)) = dom (input_caps (capabilities a))"
    and "temp_copy_property_output b = temp_copy_property_output a"
    and "set (list_to_not_delete_device a) \<subseteq> set (list_to_not_delete_device b)"
    and "c \<notin> set (list_to_not_delete_device b)
           \<Longrightarrow> input_caps (capabilities b) c = input_caps (capabilities a) c"
    and "c \<in> set (list_to_not_delete_device b)
           \<Longrightarrow> c \<in> set (list_to_not_delete_device a) \<or>
               (c \<in> dom (input_caps (capabilities a)) \<and> SENSING_TYPES ty = Some c)"
proof -
  consider (skip) "b = a"
    | (rec) k devs where "SENSING_TYPES ty = Some k" "input_caps (capabilities a) k = Some devs"
  proof (cases "SENSING_TYPES ty")
    case None
    with assms have "b = a" by (simp add: sensor_step_skip)
    then show ?thesis by (rule skip)
  next
    case (Some k)
    show ?thesis
    proof (cases "input_caps (capabilities a) k")
      case None
      with Some assms have "b = a" by (simp add: sensor_step_skip)
      then show ?thesis by (rule skip)
    next
      case (Some devs)
      with \<open>SENSING_TYPES ty = Some k\<close> show ?thesis by (rule rec)
    qed
  qed
  then have "output_caps (capabilities b) = output_caps (capabilities a) \<and>
     dom (input_caps (capabilities b)) = dom (input_caps (capabilities a)) \<and>
     temp_copy_property_output b = temp_copy_property_output a \<and>
     set (list_to_not_delete_device a) \<subseteq> set (list_to_not_delete_device b) \<and>
     (c \<notin> set (list_to_not_delete_device b)
           \<longrightarrow> input_caps (capabilities b) c = input_caps (capabilities a) c) \<and>
     (c \<in> set (list_to_not_delete_device b)
           \<longrightarrow> c \<in> set (list_to_not_delete_device a) \<or>
               (c \<in> dom (input_caps (capabilities a)) \<and> SENSING_TYPES ty = Some c))"
  proof cases
    case skip
    then show ?thesis by simp
  next
    case rec
    note r = sensor_step_recorded [OF rec assms]
    have "dom (input_caps (capabilities b)) = dom (input_caps (capabilities a))"
      using rec(2) by (auto simp: r(1) store_input_simps)
    moreover have "output_caps (capabilities b) = output_caps (capabilities a)"
      by (simp add: r(1) store_input_simps)
    moreover have "c \<notin> set (list_to_not_delete_device b)
           \<longrightarrow> input_caps (capabilities b) c = input_caps (capabilities a) c"
      by (auto simp: r(1) r(2) store_input_simps)
    moreover have "c \<in> set (list_to_not_delete_device b)
           \<longrightarrow> c \<in> set (list_to_not_delete_device a) \<or>
               (c \<in> dom (input_caps (capabilities a)) \<and> SENSING_TYPES ty = Some c)"
      using rec by (auto simp: r(2))
    ultimately show ?thesis using r(2) r(3) by auto
  qed
  then show "output_caps (capabilities b) = output_caps (capabilities a)"
    and "dom (input_caps (capabilities b)) = dom (input_caps (capabilities a))"
    and "temp_copy_property_output b = temp_copy_property_output a"
    and "set (list_to_not_delete_device a) \<subseteq> set (list_to_not_delete_device b)"
    and "c \<notin> set (list_to_not_delete_device b)
           \<Longrightarrow> input_caps (capabilities b) c = input_caps (capabilities a) c"
    and "c \<in> set (list_to_not_delete_device b)
           \<Longrightarrow> c \<in> set (list_to_not_delete_device a) \<or>
               (c \<in> dom (input_caps (capabilities a)) \<and> SENSING_TYPES ty = Some c)"
    by simp_all
qed

lemma actuator_step_frame:
  assumes "actuator_step a (n, ty, r0) = Inr b"
  shows "input_caps (capabilities b) = input_caps (capabilities a)"
    and "dom (output_caps (capabilities b)) = dom (output_caps (capabilities a))"
    and "temp_copy_property_input b = temp_copy_property_input a"
    and "set (list_to_not_delete_device a) \<subseteq> set (list_to_not_delete_device b)"
    and "c \<notin> set (list_to_not_delete_device b)
           \<Longrightarrow> output_caps (capabilities b) c = output_caps (capabilities a) c"
    and "c \<in> set (list_to_not_delete_device b)
           \<Longrightarrow> c \<in> set (list_to_not_delete_device a) \<or>
               (c \<in> dom (output_caps (capabilities a)) \<and> TRANSMISSION_TYPES ty = Some c)"
proof -
  consider (skip) "b = a"
    | (rec) k devs where "TRANSMISSION_TYPES ty = Some k" "output_caps (capabilities a) k = Some devs"
  proof (cases "TRANSMISSION_TYPES ty")
    case None
    with assms have "b = a" by (simp add: actuator_step_skip)
    then show ?thesis by (rule skip)
  next
    case (Some k)
    show ?thesis
    proof (cases "output_caps (capabilities a) k")
      case None
      with Some assms have "b = a" by (simp add: actuator_step_skip)
      then show ?thesis by (rule skip)
    next
      case (Some devs)
      with \<open>TRANSMISSION_TYPES ty = Some k\<close> show ?thesis by (rule rec)
    qed
  qed
  then have "input_caps (capabilities b) = input_caps (capabilities a) \<and>
     dom (output_caps (capabilities b)) = dom (output_caps (capabilities a)) \<and>
     temp_copy_property_input b = temp_copy_property_input a \<and>
     set (list_to_not_delete_device a) \<subseteq> set (list_to_not_delete_device b) \<and>
     (c \<notin> set (list_to_not_delete_device b)
           \<longrightarrow> output_caps (capabilities b) c = output_caps (capabilities a) c) \<and>
     (c \<in> set (list_to_not_delete_device b)
           \<longrightarrow> c \<in> set (list_to_not_delete_device a) \<or>
               (c \<in> dom (output_caps (capabilities a)) \<and> TRANSMISSION_TYPES ty = Some c))"
  proof cases
    case skip
    then show ?thesis by simp
  next
    case rec
    note r = actuator_step_recorded [OF rec assms]
    have "dom (output_caps (capabilities b)) = dom (output_caps (capabilities a))"
      using rec(2) by (auto simp: r(1) store_output_simps)
    moreover have "input_caps (capabilities b) = input_caps (capabilities a)"
      by (simp add: r(1) store_output_simps)
    moreover have "c \<notin> set (list_to_not_delete_device b)
           \<longrightarrow> output_caps (capabilities b) c = output_caps (capabilities a) c"
      by (auto simp: r(1) r(2) store_output_simps)
    moreover have "c \<in> set (list_to_not_delete_device b)
           \<longrightarrow> c \<in> set (list_to_not_delete_device a) \<or>
               (c \<in> dom (output_caps (capabilities a)) \<and> TRANSMISSION_TYPES ty = Some c)"
      using rec by (auto simp: r(2))
    ultimately show ?thesis using r(2) r(3) by auto
  qed
  then show "input_caps (capabilities b) = input_caps (capabilities a)"
    and "dom (output_caps (capabilities b)) = dom (output_caps (capabilities a))"
    and "temp_copy_property_input b = temp_copy_property_input a"
    and "set (list_to_not_delete_device a) \<subseteq> set (list_to_not_delete_device b)"
    and "c \<notin> set (list_to_not_delete_device b)
           \<Longrightarrow> output_caps (capabilities b) c = output_caps (capabilities a) c"
    and "c \<in> set (list_to_not_delete_device b)
           \<Longrightarrow> c \<in> set (list_to_not_delete_device a) \<or>
               (c \<in> dom (output_caps (capabilities a)) \<and> TRANSMISSION_TYPES ty = Some c)"
    by simp_all
qed

lemma sensor_loop_frame:
  assumes "for_each sensor_step s sensors = Inr st"
  shows "output_caps (capabilities st) = output_caps (capabilities s) \<and>
     dom (input_caps (capabilities st)) = dom (input_caps (capabilities s)) \<and>
     temp_copy_property_output st = temp_copy_property_output s \<and>
     set (list_to_not_delete_device s) \<subseteq> set (list_to_not_delete_device st) \<and>
     (\<forall>c. c \<notin> set (list_to_not_delete_device st)
           \<longrightarrow> input_caps (capabilities st) c = input_caps (capabilities s) c) \<and>
     (\<forall>c. c \<in> set (list_to_not_delete_device st)
           \<longrightarrow> c \<in> set (list_to_not_delete_device s) \<or>
               (c \<in> dom (input_caps (capabilities s)) \<and>
                (\<exists>d \<in> set sensors. SENSING_TYPES (snd d) = Some c)))"
    (is "?P st")
proof (rule for_each_invariant [OF assms, where P = ?P])
  show "?P s" by simp
next
  fix a x b
  assume pa: "?P a" and x: "x \<in> set sensors" and step: "sensor_step a x = Inr b"
  obtain n ty where xe: "x = (n, ty)" by (cases x)
  from step xe have step': "sensor_step a (n, ty) = Inr b" by simp
  note f = sensor_step_frame [OF step']
  have 1: "output_caps (capabilities b) = output_caps (capabilities s)"
    using f(1) pa by simp
  have 2: "dom (input_caps (capabilities b)) = dom (input_caps (capabilities s))"
    using f(2) pa by simp
  have 3: "temp_copy_property_output b = temp_copy_property_output s"
    using f(3) pa by simp
  have 4: "set (list_to_not_delete_device s) \<subseteq> set (list_to_not_delete_device b)"
    using f(4) pa by blast
  have 5: "input_caps (capabilities b) c = input_caps (capabilities s) c"
    if "c \<notin> set (list_to_not_delete_device b)" for c
  proof -
    from that f(4) have "c \<notin> set (list_to_not_delete_device a)" by blast
    with pa have "input_caps (capabilities a) c = input_caps (capabilities s) c" by blast
    with f(5) [OF that] show ?thesis by simp
  qed
  have 6: "c \<in> set (list_to_not_delete_device s) \<or>
               (c \<in> dom (input_caps (capabilities s)) \<and>
                (\<exists>d \<in> set sensors. SENSING_TYPES (snd d) = Some c))"
    if "c \<in> set (list_to_not_delete_device b)" for c
  proof -
    from f(6) [OF that] show ?thesis
    proof
      assume "c \<in> set (list_to_not_delete_device a)"
      with pa show ?thesis by blast
    next
      assume h: "c \<in> dom (input_caps (capabilities a)) \<and> SENSING_TYPES ty = Some c"
      from pa have "dom (input_caps (capabilities a)) = dom (input_caps (capabilities s))"
        by blast
      with h have "c \<in> dom (input_caps (capabilities s))" by simp
      moreover from h x xe have "\<exists>d \<in> set sensors. SENSING_TYPES (snd d) = Some c"
        by force
      ultimately show ?thesis by blast
    qed
  qed
  from 1 2 3 4 5 6 show "?P b" by blast
qed


lemma actuator_loop_frame:
  assumes "for_each actuator_step s actuators = Inr st"
  shows "input_caps (capabilities st) = input_caps (capabilities s) \<and>
     dom (output_caps (capabilities st)) = dom (output_caps (capabilities s)) \<and>
     temp_copy_property_input st = temp_copy_property_input s \<and>
     set (list_to_not_delete_device s) \<subseteq> set (list_to_not_delete_device st) \<and>
     (\<forall>c. c \<notin> set (list_to_not_delete_device st)
           \<longrightarrow> output_caps (capabilities st) c = output_caps (capabilities s) c) \<and>
     (\<forall>c. c \<in> set (list_to_not_delete_device st)
           \<longrightarrow> c \<in> set (list_to_not_delete_device s) \<or>
               (c \<in> dom (output_caps (capabilities s)) \<and>
                (\<exists>d \<in> set actuators. TRANSMISSION_TYPES (fst (snd d)) = Some c)))"
    (is "?P st")
proof (rule for_each_invariant [OF assms, where P = ?P])
  show "?P s" by simp
next
  fix a x b
  assume pa: "?P a" and x: "x \<in> set actuators" and step: "actuator_step a x = Inr b"
  obtain n ty r0 where xe: "x = (n, ty, r0)" by (cases x)
  from step xe have step': "actuator_step a (n, ty, r0) = Inr b" by simp
  note f = actuator_step_frame [OF step']
  have 1: "input_caps (capabilities b) = input_caps (capabilities s)"
    using f(1) pa by simp
  have 2: "dom (output_caps (capabilities b)) = dom (output_caps (capabilities s))"
    using f(2) pa by simp
  have 3: "temp_copy_property_input b = temp_copy_property_input s"
    using f(3) pa by simp
  have 4: "set (list_to_not_delete_device s) \<subseteq> set (list_to_not_delete_device b)"
    using f(4) pa by blast
  have 5: "output_caps (capabilities b) c = output_caps (capabilities s) c"
    if "c \<notin> set (list_to_not_delete_device b)" for c
  proof -
    from that f(4) have "c \<notin> set (list_to_not_delete_device a)" by blast
    with pa have "output_caps (capabilities a) c = output_caps (capabilities s) c" by blast
    with f(5) [OF that] show ?thesis by simp
  qed
  have 6: "c \<in> set (list_to_not_delete_device s) \<or>
               (c \<in> dom (output_caps (capabilities s)) \<and>
                (\<exists>d \<in> set actuators. TRANSMISSION_TYPES (fst (snd d)) = Some c))"
    if "c \<in> set (list_to_not_delete_device b)" for c
  proof -
    from f(6) [OF that] show ?thesis
    proof
      assume "c \<in> set (list_to_not_delete_device a)"
      with pa show ?thesis by blast
    next
      assume h: "c \<in> dom (output_caps (capabilities a)) \<and> TRANSMISSION_TYPES ty = Some c"
      from pa have "dom (output_caps (capabilities a)) = dom (output_caps (capabilities s))"
        by blast
      with h have "c \<in> dom (output_caps (capabilities s))" by simp
      moreover from h x xe have "\<exists>d \<in> set actuators. TRANSMISSION_TYPES (fst (snd d)) = Some c"
        by force
      ultimately show ?thesis by blast
    qed
  qed
  from 1 2 3 4 5 6 show "?P b" by blast
qed


lemma actuator_pass_frame:
  assumes "actuator_pass template sensors actuators = Inr st"
  shows "dom (input_caps (capabilities st)) = dom (input_caps template)"
    and "dom (output_caps (capabilities st)) = dom (output_caps template)"
    and "c \<notin> set (list_to_not_delete_device st)
           \<Longrightarrow> input_caps (capabilities st) c = input_caps template c \<and>
               output_caps (capabilities st) c = output_caps template c"
    and "c \<in> set (list_to_not_delete_device st)
           \<Longrightarrow> (c \<in> dom (input_caps template) \<and>
                (\<exists>d \<in> set sensors. SENSING_TYPES (snd d) = Some c)) \<or>
               (c \<in> dom (output_caps template) \<and>
                (\<exists>d \<in> set actuators. TRANSMISSION_TYPES (fst (snd d)) = Some c))"
proof -
  from assms obtain s1 where s1: "for_each sensor_step (recon_init template) sensors = Inr s1"
    and s2: "for_each actuator_step (actuator_start s1) actuators = Inr st"
    by (auto simp: actuator_pass_def sensor_pass_def split: sum.splits)
  note a = sensor_loop_frame [OF s1]
  note b = actuator_loop_frame [OF s2]
  have i: "capabilities (recon_init template) = template"
    "list_to_not_delete_device (recon_init template) = []"
    by (simp_all add: recon_init_def)
  have j: "capabilities (actuator_start s1) = capabilities s1"
    "list_to_not_delete_device (actuator_start s1) = list_to_not_delete_device s1"
    by (simp_all add: actuator_start_def)
  show "dom (input_caps (capabilities st)) = dom (input_caps template)"
    using a b by (simp add: i j)
  show "dom (output_caps (capabilities st)) = dom (output_caps template)"
    using a b by (simp add: i j)
  show "input_caps (capabilities st) c = input_caps template c \<and>
        output_caps (capabilities st) c = output_caps template c"
    if "c \<notin> set (list_to_not_delete_device st)"
  proof -
    from b that have "c \<notin> set (list_to_not_delete_device s1)" by (auto simp: j)
    with a have "input_caps (capabilities s1) c = input_caps template c" by (simp add: i)
    moreover from b that have "output_caps (capabilities st) c = output_caps (capabilities s1) c"
      by (simp add: j)
    moreover from a b have "input_caps (capabilities st) = input_caps (capabilities s1)"
      "output_caps (capabilities s1) = output_caps template"
      by (simp_all add: i j)
    ultimately show ?thesis by simp
  qed
  show "(c \<in> dom (input_caps template) \<and>
                (\<exists>d \<in> set sensors. SENSING_TYPES (snd d) = Some c)) \<or>
               (c \<in> dom (output_caps template) \<and>
                (\<exists>d \<in> set actuators. TRANSMISSION_TYPES (fst (snd d)) = Some c))"
    if "c \<in> set (list_to_not_delete_device st)"
  proof -
    from b that have "c \<in> set (list_to_not_delete_device s1) \<or>
               (c \<in> dom (output_caps (capabilities s1)) \<and>
                (\<exists>d \<in> set actuators. TRANSMISSION_TYPES (fst (snd d)) = Some c))"
      by (simp add: j)
    then show ?thesis
    proof
      assume "c \<in> set (list_to_not_delete_device s1)"
      with a have "c \<in> dom (input_caps template) \<and>
                (\<exists>d \<in> set sensors. SENSING_TYPES (snd d) = Some c)"
        by (simp add: i)
      then show ?thesis by blast
    next
      assume "c \<in> dom (output_caps (capabilities s1)) \<and>
                (\<exists>d \<in> set actuators. TRANSMISSION_TYPES (fst (snd d)) = Some c)"
      moreover from a have "output_caps (capabilities s1) = output_caps template"
        by (simp add: i)
      ultimately show ?thesis by simp
    qed
  qed
qed

lemma reconcile_Inr:
  "reconcile template sensors actuators = Inr final \<longleftrightarrow>
     (\<exists>st. actuator_pass template sensors actuators = Inr st \<and>
           final = prune (list_to_not_delete_device st) (capabilities st))"
  by (auto simp: reconcile_def split: sum.splits)

lemma prune_simps:
  "input_caps (prune seen caps) c = (if c \<in> set seen then input_caps caps c else None)"
  "output_caps (prune seen caps) c = (if c \<in> set seen then output_caps caps c else None)"
  by (simp_all add: prune_def restrict_map_def)

section \<open>Sensor descriptors\<close>

lemma dict_set_map_fst:
  "set (map fst (dict_set k v kvs)) = insert k (set (map fst kvs))"
proof (induction kvs)
  case Nil
  show ?case by simp
next
  case (Cons p kvs)
  obtain k' v' where p: "p = (k', v')" by (cases p)
  show ?case
  proof (cases "k = k'")
    case True
    then show ?thesis by (simp add: p)
  next
    case False
    then show ?thesis using Cons.IH by (simp add: p insert_commute)
  qed
qed

lemma dict_set_keys: "fst ` set (dict_set k v kvs) = insert k (fst ` set kvs)"
  using dict_set_map_fst [of k v kvs] by simp

lemma sensor_information_step_Inr:
  "sensor_information_step xml_input acc (n, t) = Inr acc' \<longleftrightarrow>
     (\<exists>ty. xml_input (descriptor_name t n) = Some ty \<and>
           acc' = dict_set (descriptor_name t n) ty acc)"
  by (auto simp: sensor_information_step_def split: option.splits)

lemma dict_set_distinct: "distinct (map fst kvs) \<Longrightarrow> distinct (map fst (dict_set k v kvs))"
  by (induction kvs) (auto simp: dict_set_keys)

lemma sensor_information_keys:
  assumes "for_each (sensor_information_step xml_input) acc model_sensors = Inr si"
    and "distinct (map fst acc)"
  shows "distinct (map fst si) \<and>
         fst ` set si = fst ` set acc \<union> (\<lambda>(n, t). descriptor_name t n) ` set model_sensors"
  using assms
proof (induction model_sensors arbitrary: acc)
  case Nil
  then show ?case by simp
next
  case (Cons s ss)
  obtain n t where s: "s = (n, t)" by (cases s)
  from Cons.prems(1) s obtain acc' where a: "sensor_information_step xml_input acc (n, t) = Inr acc'"
    and r': "for_each (sensor_information_step xml_input) acc' ss = Inr si"
    by (auto split: sum.splits)
  from a obtain ty where ty: "xml_input (descriptor_name t n) = Some ty"
    and acc': "acc' = dict_set (descriptor_name t n) ty acc"
    by (auto simp: sensor_information_step_Inr)
  from r' acc'
  have r: "for_each (sensor_information_step xml_input) (dict_set (descriptor_name t n) ty acc) ss = Inr si"
    by simp
  have "distinct (map fst (dict_set (descriptor_name t n) ty acc))"
    using Cons.prems(2) by (rule dict_set_distinct)
  from Cons.IH [OF r this] show ?case
    by (simp add: s dict_set_keys)
qed

text \<open>
  Claim C7, as the code has it. For a sensor of raw type 7 the descriptor name is the declared
  name without its last four characters, so a four-character suffix is removed and nothing
  else: \<open>head_gyro_abcd\<close> gives \<open>head_gyro_\<close>, the underscore staying. The descriptors
  built from the model's sensors have distinct names, one descriptor for each derived name,
  however many sensors share it.
\<close>

theorem descriptor_name_strips_four_characters:
  "descriptor_name 7 sensor_name = take (length sensor_name - 4) sensor_name \<and>
   (length suffix = 4 \<longrightarrow> descriptor_name 7 (base @ suffix) = base) \<and>
   descriptor_name 7 ''head_gyro_abcd'' = ''head_gyro_'' \<and>
   (build_sensor_information xml_input model_sensors = Inr sensor_information \<longrightarrow>
      distinct (map fst sensor_information) \<and>
      fst ` set sensor_information = (\<lambda>(n, t). descriptor_name t n) ` set model_sensors)"
proof -
  have "build_sensor_information xml_input model_sensors = Inr sensor_information \<longrightarrow>
      distinct (map fst sensor_information) \<and>
      fst ` set sensor_information = (\<lambda>(n, t). descriptor_name t n) ` set model_sensors"
    using sensor_information_keys [of xml_input "[]" model_sensors sensor_information]
    by (simp add: build_sensor_information_def)
  moreover have "descriptor_name 7 ''head_gyro_abcd'' = ''head_gyro_''"
    by (simp add: descriptor_name_def)
  ultimately show ?thesis
    by (simp add: descriptor_name_def)
qed

theorem descriptor_name_strips_four_characters_witness:
  "length ''abcd'' = 4 \<and> descriptor_name 7 (''head_gyro'' @ ''abcd'') = ''head_gyro'' \<and>
   build_sensor_information [''head_gyro'' \<mapsto> ''framequat'']
       [(''head_gyroabcd'', 7), (''head_gyroefgh'', 7)] = Inr [(''head_gyro'', ''framequat'')] \<and>
   distinct (map fst [(''head_gyro'', ''framequat'')]) \<and>
   fst ` set [(''head_gyro'', ''framequat'')] =
     (\<lambda>(n, t). descriptor_name t n) ` set [(''head_gyroabcd'', 7), (''head_gyroefgh'', 7::int)]"
proof -
  have b: "build_sensor_information [''head_gyro'' \<mapsto> ''framequat'']
       [(''head_gyroabcd'', 7), (''head_gyroefgh'', 7)] = Inr [(''head_gyro'', ''framequat'')]"
    by (simp add: build_sensor_information_def sensor_information_step_def descriptor_name_def)
  have l: "length ''abcd'' = 4" by simp
  from descriptor_name_strips_four_characters
         [of "''head_gyroabcd''" "''abcd''" "''head_gyro''" "[''head_gyro'' \<mapsto> ''framequat'']"
            "[(''head_gyroabcd'', 7), (''head_gyroefgh'', 7)]" "[(''head_gyro'', ''framequat'')]"]
  show ?thesis using b l by simp
qed

text \<open>
  Claim C7 as the specification words it gives \<open>head_gyro\<close> for the sensor
  \<open>head_gyro_abcd\<close>; removing four characters leaves \<open>head_gyro_\<close>.
\<close>

theorem head_gyro_abcd_counterexample:
  "descriptor_name 7 ''head_gyro_abcd'' \<noteq> ''head_gyro''"
  by (simp add: descriptor_name_def)

section \<open>Pruning and the categories that remain\<close>

lemma str_digits:
  "str 0 = ''0''" "str (Suc 0) = ''1''" "str (Suc (Suc 0)) = ''2''"
  by code_simp+

lemmas eval_defs = reconcile_def actuator_pass_def sensor_pass_def recon_init_def
  actuator_start_def sensor_step_def actuator_step_def store_input_def store_output_def
  set_limits_def prune_def SENSING_TYPES_def TRANSMISSION_TYPES_def Let_def str_digits
  template_ex_def sensors_ex_def actuators_ex_def

text \<open>
  Claim C2. After the pruning loop no section holds a category that is missing from the list
  of seen categories; in particular a category that no discovered sensor and no discovered
  actuator maps to is in neither section of the final capabilities.
\<close>

theorem unseen_category_is_pruned:
  assumes "reconcile template sensors actuators = Inr final"
    and "actuator_pass template sensors actuators = Inr st"
    and "c \<notin> set (list_to_not_delete_device st) \<or>
         ((\<forall>d \<in> set sensors. SENSING_TYPES (snd d) \<noteq> Some c) \<and>
          (\<forall>d \<in> set actuators. TRANSMISSION_TYPES (fst (snd d)) \<noteq> Some c))"
  shows "c \<notin> dom (input_caps final) \<and> c \<notin> dom (output_caps final)"
proof -
  from assms(1,2) have f: "final = prune (list_to_not_delete_device st) (capabilities st)"
    by (simp add: reconcile_Inr)
  have "c \<notin> set (list_to_not_delete_device st)"
    using assms(3) actuator_pass_frame(4) [OF assms(2), of c] by blast
  then show ?thesis by (simp add: f dom_def prune_simps)
qed

theorem unseen_category_is_pruned_witness:
  "\<exists>final. reconcile template_ex [(''g1'', ''framequat'')] [(''m'', ''motor'', 0, 5)] = Inr final \<and>
     ''proximity'' \<notin> dom (input_caps final) \<and> ''proximity'' \<notin> dom (output_caps final) \<and>
     ''servo'' \<notin> dom (input_caps final) \<and> ''servo'' \<notin> dom (output_caps final)"
proof -
  obtain st where p: "actuator_pass template_ex [(''g1'', ''framequat'')] [(''m'', ''motor'', 0, 5)] = Inr st"
    and l: "list_to_not_delete_device st = [''gyro'', ''motor'']"
    by (simp add: eval_defs)
  then obtain final
    where r: "reconcile template_ex [(''g1'', ''framequat'')] [(''m'', ''motor'', 0, 5)] = Inr final"
    by (simp add: reconcile_def)
  have 1: "''proximity'' \<notin> set (list_to_not_delete_device st) \<or>
         ((\<forall>d \<in> set [(''g1'', ''framequat'')]. SENSING_TYPES (snd d) \<noteq> Some ''proximity'') \<and>
          (\<forall>d \<in> set [(''m'', ''motor'', 0::real, 5::real)].
              TRANSMISSION_TYPES (fst (snd d)) \<noteq> Some ''proximity''))"
    by (simp add: l)
  have 2: "''servo'' \<notin> set (list_to_not_delete_device st) \<or>
         ((\<forall>d \<in> set [(''g1'', ''framequat'')]. SENSING_TYPES (snd d) \<noteq> Some ''servo'') \<and>
          (\<forall>d \<in> set [(''m'', ''motor'', 0::real, 5::real)].
              TRANSMISSION_TYPES (fst (snd d)) \<noteq> Some ''servo''))"
    by (simp add: SENSING_TYPES_def TRANSMISSION_TYPES_def)
  from unseen_category_is_pruned [OF r p 1] unseen_category_is_pruned [OF r p 2] r
  show ?thesis by blast
qed

text \<open>
  Claim C4. Every entry of the final capabilities, in either section, sits under a category
  that some discovered device of the scene maps to: a category stays only when a sensor or an
  actuator of that category was recorded.
\<close>

theorem final_entry_has_discovered_device:
  assumes "reconcile template sensors actuators = Inr final"
    and "input_caps final c = Some devs \<or> output_caps final c = Some devs"
    and "devs device_id = Some e"
  shows "(\<exists>d \<in> set sensors. SENSING_TYPES (snd d) = Some c) \<or>
         (\<exists>d \<in> set actuators. TRANSMISSION_TYPES (fst (snd d)) = Some c)"
proof -
  from assms(1) obtain st where p: "actuator_pass template sensors actuators = Inr st"
    and f: "final = prune (list_to_not_delete_device st) (capabilities st)"
    by (auto simp: reconcile_Inr)
  from assms(2) have "c \<in> set (list_to_not_delete_device st)"
    by (auto simp: f prune_simps split: if_splits)
  from actuator_pass_frame(4) [OF p this] show ?thesis by blast
qed

theorem final_entry_has_discovered_device_witness:
  "\<exists>final devs e. reconcile template_ex sensors_ex actuators_ex = Inr final \<and>
     (input_caps final ''gyro'' = Some devs \<or> output_caps final ''gyro'' = Some devs) \<and>
     devs ''0'' = Some e \<and>
     ((\<exists>d \<in> set sensors_ex. SENSING_TYPES (snd d) = Some ''gyro'') \<or>
      (\<exists>d \<in> set actuators_ex. TRANSMISSION_TYPES (fst (snd d)) = Some ''gyro''))"
proof -
  obtain final devs e where r: "reconcile template_ex sensors_ex actuators_ex = Inr final"
    and d: "input_caps final ''gyro'' = Some devs" and e: "devs ''0'' = Some e"
    by (simp add: eval_defs)
  from d have d': "input_caps final ''gyro'' = Some devs \<or> output_caps final ''gyro'' = Some devs"
    by simp
  from final_entry_has_discovered_device [OF r d' e] r d' e show ?thesis by blast
qed

text \<open>
  Claim C10. Reconciliation adds no category: the categories of each section of the final
  capabilities are among the categories of that section of the template.
\<close>

theorem no_category_inserted:
  assumes "reconcile template sensors actuators = Inr final"
  shows "dom (input_caps final) \<subseteq> dom (input_caps template) \<and>
         dom (output_caps final) \<subseteq> dom (output_caps template)"
proof -
  from assms obtain st where p: "actuator_pass template sensors actuators = Inr st"
    and f: "final = prune (list_to_not_delete_device st) (capabilities st)"
    by (auto simp: reconcile_Inr)
  have "dom (input_caps final) \<subseteq> dom (input_caps (capabilities st))"
    "dom (output_caps final) \<subseteq> dom (output_caps (capabilities st))"
    by (auto simp: f prune_simps split: if_splits)
  with actuator_pass_frame(1,2) [OF p] show ?thesis by simp
qed

theorem no_category_inserted_witness:
  "\<exists>final. reconcile template_ex sensors_ex actuators_ex = Inr final \<and>
     dom (input_caps final) \<subseteq> dom (input_caps template_ex) \<and>
     dom (output_caps final) \<subseteq> dom (output_caps template_ex)"
proof -
  obtain final where r: "reconcile template_ex sensors_ex actuators_ex = Inr final"
    by (simp add: eval_defs)
  from no_category_inserted [OF r] r show ?thesis by blast
qed

section \<open>Devices that are dropped\<close>

lemma for_each_skip:
  assumes "\<And>s. for_each body s0 pre = Inr s \<Longrightarrow> body s d = Inr s"
  shows "for_each body s0 (pre @ d # post) = for_each body s0 (pre @ post)"
proof (cases "for_each body s0 pre")
  case (Inl e)
  then show ?thesis by (simp add: for_each_append)
next
  case (Inr s)
  with assms [OF Inr] show ?thesis by (simp add: for_each_append)
qed

lemma sensor_pass_skip:
  assumes "SENSING_TYPES ty = None \<or>
           (\<exists>c. SENSING_TYPES ty = Some c \<and> c \<notin> dom (input_caps template))"
    and "sensor_pass template pre = Inr st"
  shows "sensor_step st (n, ty) = Inr st"
proof -
  from assms(2) have "dom (input_caps (capabilities st)) = dom (input_caps template)"
    using sensor_loop_frame [of "recon_init template" pre st]
    by (simp add: sensor_pass_def recon_init_def)
  with assms(1) have "SENSING_TYPES ty = None \<or>
     (\<exists>c. SENSING_TYPES ty = Some c \<and> input_caps (capabilities st) c = None)"
    by (metis domIff)
  then show ?thesis by (rule sensor_step_skip)
qed

lemma actuator_pass_skip:
  assumes "TRANSMISSION_TYPES ty = None \<or>
           (\<exists>c. TRANSMISSION_TYPES ty = Some c \<and> c \<notin> dom (output_caps template))"
    and "actuator_pass template sensors pre = Inr st"
  shows "actuator_step st (n, ty, r) = Inr st"
proof -
  from actuator_pass_frame(2) [OF assms(2)]
  have "dom (output_caps (capabilities st)) = dom (output_caps template)" .
  with assms(1) have "TRANSMISSION_TYPES ty = None \<or>
     (\<exists>c. TRANSMISSION_TYPES ty = Some c \<and> output_caps (capabilities st) c = None)"
    by (metis domIff)
  then show ?thesis by (rule actuator_step_skip)
qed

lemma sensor_pass_drop:
  assumes "SENSING_TYPES ty = None \<or>
           (\<exists>c. SENSING_TYPES ty = Some c \<and> c \<notin> dom (input_caps template))"
  shows "sensor_pass template (pre @ (n, ty) # post) = sensor_pass template (pre @ post)"
  unfolding sensor_pass_def
proof (rule for_each_skip)
  fix s
  assume "for_each sensor_step (recon_init template) pre = Inr s"
  then have "sensor_pass template pre = Inr s" by (simp add: sensor_pass_def)
  with assms show "sensor_step s (n, ty) = Inr s" by (rule sensor_pass_skip)
qed

lemma actuator_pass_drop:
  assumes "TRANSMISSION_TYPES ty = None \<or>
           (\<exists>c. TRANSMISSION_TYPES ty = Some c \<and> c \<notin> dom (output_caps template))"
  shows "actuator_pass template sensors (pre @ (n, ty, r) # post) =
         actuator_pass template sensors (pre @ post)"
proof (cases "sensor_pass template sensors")
  case (Inl e)
  then show ?thesis by (simp add: actuator_pass_def)
next
  case (Inr s1)
  have "for_each actuator_step (actuator_start s1) (pre @ (n, ty, r) # post) =
        for_each actuator_step (actuator_start s1) (pre @ post)"
  proof (rule for_each_skip)
    fix s
    assume "for_each actuator_step (actuator_start s1) pre = Inr s"
    with Inr have "actuator_pass template sensors pre = Inr s" by (simp add: actuator_pass_def)
    with assms show "actuator_step s (n, ty, r) = Inr s" by (rule actuator_pass_skip)
  qed
  with Inr show ?thesis by (simp add: actuator_pass_def)
qed

text \<open>
  Claim C9. A discovered sensor whose kind is not in \<open>SENSING_TYPES\<close>, or whose category is no
  key of the template's input section, leaves the state of the loop as it is and raises
  nothing, and the reconciliation gives what it gives for the scene without that sensor. The
  same holds for an actuator, \<open>TRANSMISSION_TYPES\<close> and the output section.
\<close>

theorem unmapped_device_is_dropped:
  "((SENSING_TYPES ty = None \<or>
      (\<exists>c. SENSING_TYPES ty = Some c \<and> c \<notin> dom (input_caps template))) \<longrightarrow>
     (\<forall>st. sensor_pass template pre = Inr st \<longrightarrow> sensor_step st (n, ty) = Inr st) \<and>
     reconcile template (pre @ (n, ty) # post) actuators =
       reconcile template (pre @ post) actuators) \<and>
   ((TRANSMISSION_TYPES aty = None \<or>
      (\<exists>c. TRANSMISSION_TYPES aty = Some c \<and> c \<notin> dom (output_caps template))) \<longrightarrow>
     (\<forall>st. actuator_pass template sensors apre = Inr st \<longrightarrow>
        actuator_step st (an, aty, r) = Inr st) \<and>
     reconcile template sensors (apre @ (an, aty, r) # apost) =
       reconcile template sensors (apre @ apost))"
proof (intro conjI impI allI)
  fix st
  assume "SENSING_TYPES ty = None \<or>
      (\<exists>c. SENSING_TYPES ty = Some c \<and> c \<notin> dom (input_caps template))"
    and "sensor_pass template pre = Inr st"
  then show "sensor_step st (n, ty) = Inr st" by (rule sensor_pass_skip)
next
  assume "SENSING_TYPES ty = None \<or>
      (\<exists>c. SENSING_TYPES ty = Some c \<and> c \<notin> dom (input_caps template))"
  then have "sensor_pass template (pre @ (n, ty) # post) = sensor_pass template (pre @ post)"
    by (rule sensor_pass_drop)
  then show "reconcile template (pre @ (n, ty) # post) actuators =
       reconcile template (pre @ post) actuators"
    by (simp add: reconcile_def actuator_pass_def)
next
  fix st
  assume "TRANSMISSION_TYPES aty = None \<or>
      (\<exists>c. TRANSMISSION_TYPES aty = Some c \<and> c \<notin> dom (output_caps template))"
    and "actuator_pass template sensors apre = Inr st"
  then show "actuator_step st (an, aty, r) = Inr st" by (rule actuator_pass_skip)
next
  assume "TRANSMISSION_TYPES aty = None \<or>
      (\<exists>c. TRANSMISSION_TYPES aty = Some c \<and> c \<notin> dom (output_caps template))"
  then have "actuator_pass template sensors (apre @ (an, aty, r) # apost) =
         actuator_pass template sensors (apre @ apost)"
    by (rule actuator_pass_drop)
  then show "reconcile template sensors (apre @ (an, aty, r) # apost) =
       reconcile template sensors (apre @ apost)"
    by (simp add: reconcile_def)
qed

theorem unmapped_device_is_dropped_witness:
  "SENSING_TYPES ''touch'' = None \<and>
   TRANSMISSION_TYPES ''velocity'' = None \<and>
   sensor_step (recon_init template_ex) (''t1'', ''touch'') = Inr (recon_init template_ex) \<and>
   reconcile template_ex ([(''g1'', ''framequat'')] @ (''t1'', ''touch'') # [(''p1'', ''distance'')])
       actuators_ex =
     reconcile template_ex ([(''g1'', ''framequat'')] @ [(''p1'', ''distance'')]) actuators_ex \<and>
   reconcile template_ex sensors_ex ([(''a'', ''position'', - 1, 1)] @ (''v'', ''velocity'', 0, 1) # []) =
     reconcile template_ex sensors_ex ([(''a'', ''position'', - 1, 1)] @ [])"
proof -
  have s: "SENSING_TYPES ''touch'' = None" by (simp add: SENSING_TYPES_def)
  have t: "TRANSMISSION_TYPES ''velocity'' = None" by (simp add: TRANSMISSION_TYPES_def)
  have p: "sensor_pass template_ex [] = Inr (recon_init template_ex)"
    by (simp add: sensor_pass_def)
  from unmapped_device_is_dropped
         [where ty = "''touch''" and template = template_ex and pre = "[]" and n = "''t1''"]
       s p
  have 1: "sensor_step (recon_init template_ex) (''t1'', ''touch'') = Inr (recon_init template_ex)"
    by simp
  from unmapped_device_is_dropped
         [where ty = "''touch''" and template = template_ex and pre = "[(''g1'', ''framequat'')]"
            and n = "''t1''" and post = "[(''p1'', ''distance'')]" and actuators = actuators_ex
            and aty = "''velocity''" and sensors = sensors_ex
            and apre = "[(''a'', ''position'', - 1, 1)]" and an = "''v''" and r = "(0, 1)"
            and apost = "[]"]
       s t
  have 2: "reconcile template_ex ([(''g1'', ''framequat'')] @ (''t1'', ''touch'') # [(''p1'', ''distance'')])
       actuators_ex =
     reconcile template_ex ([(''g1'', ''framequat'')] @ [(''p1'', ''distance'')]) actuators_ex"
    and 3: "reconcile template_ex sensors_ex ([(''a'', ''position'', - 1, 1)] @ (''v'', ''velocity'', 0, 1) # []) =
     reconcile template_ex sensors_ex ([(''a'', ''position'', - 1, 1)] @ [])"
    by blast+
  from s t 1 2 3 show ?thesis by blast
qed

section \<open>Base records\<close>

lemma sensor_pass_frame:
  assumes "sensor_pass template pre = Inr st"
  shows "dom (input_caps (capabilities st)) = dom (input_caps template)"
    and "c \<notin> set (list_to_not_delete_device st)
           \<Longrightarrow> input_caps (capabilities st) c = input_caps template c"
  using sensor_loop_frame [of "recon_init template" pre st] assms
  by (simp_all add: sensor_pass_def recon_init_def)

lemma store_input_known:
  "input_caps caps c = Some devs \<Longrightarrow>
   store_input c i t caps = caps\<lparr>input_caps := (input_caps caps)(c \<mapsto> devs(i \<mapsto> t))\<rparr>"
  by (simp add: store_input_def)

lemma store_output_known:
  "output_caps caps c = Some devs \<Longrightarrow>
   store_output c i t caps = caps\<lparr>output_caps := (output_caps caps)(c \<mapsto> devs(i \<mapsto> t))\<rparr>"
  by (simp add: store_output_def)

text \<open>
  Claim C8. In the sensor loop, after any sensors already processed: the first device of a
  category takes the template's entry \<open>"0"\<close> of that category as the base record
  (\<open>KeyError\<close> when the template has none), stamps the name and index 0 on it, and the
  category's dictionary, still the template's, gets the stamped record under \<open>"0"\<close>; a later
  device of a seen category takes the base record as the last device left it, stamps its
  name and the incremented counter, and the category's dictionary gets the stamped record
  under the decimal string of that counter. Every other category and the other section stay
  as they are. The actuator loop does the same on the output section and sets the limits of
  the category from the control range before stamping.
\<close>

theorem base_record_copied_then_reused:
  "(sensor_pass template pre = Inr st \<and> SENSING_TYPES ty = Some c \<and>
    input_caps template c = Some devs \<longrightarrow>
      (c \<notin> set (list_to_not_delete_device st) \<longrightarrow>
         sensor_step st (n, ty) =
           (case devs ''0'' of
              None \<Rightarrow> Inl KeyError
            | Some e \<Rightarrow>
                Inr (st\<lparr>capabilities :=
                           (capabilities st)\<lparr>input_caps :=
                              (input_caps (capabilities st))
                                (c \<mapsto> devs(''0'' \<mapsto>
                                   e(''custom_name'' \<mapsto> JStr n, ''feagi_index'' \<mapsto> JInt 0)))\<rparr>,
                         list_to_not_delete_device := list_to_not_delete_device st @ [c],
                         increment := 0,
                         temp_copy_property_input :=
                           e(''custom_name'' \<mapsto> JStr n, ''feagi_index'' \<mapsto> JInt 0)\<rparr>))) \<and>
      (c \<in> set (list_to_not_delete_device st) \<longrightarrow>
         (\<exists>cur. input_caps (capabilities st) c = Some cur \<and>
            sensor_step st (n, ty) =
              Inr (st\<lparr>capabilities :=
                         (capabilities st)\<lparr>input_caps :=
                            (input_caps (capabilities st))
                              (c \<mapsto> cur(str (increment st + 1) \<mapsto>
                                 (temp_copy_property_input st)
                                   (''custom_name'' \<mapsto> JStr n,
                                    ''feagi_index'' \<mapsto> JInt (int (increment st + 1)))))\<rparr>,
                       list_to_not_delete_device := list_to_not_delete_device st,
                       increment := increment st + 1,
                       temp_copy_property_input :=
                         (temp_copy_property_input st)
                           (''custom_name'' \<mapsto> JStr n,
                            ''feagi_index'' \<mapsto> JInt (int (increment st + 1)))\<rparr>)))) \<and>
   (actuator_pass template sensors apre = Inr ast \<and> TRANSMISSION_TYPES aty = Some ac \<and>
    output_caps template ac = Some adevs \<longrightarrow>
      (ac \<notin> set (list_to_not_delete_device ast) \<longrightarrow>
         actuator_step ast (an, aty, r) =
           (case adevs ''0'' of
              None \<Rightarrow> Inl KeyError
            | Some e \<Rightarrow>
                Inr (ast\<lparr>capabilities :=
                           (capabilities ast)\<lparr>output_caps :=
                              (output_caps (capabilities ast))
                                (ac \<mapsto> adevs(''0'' \<mapsto>
                                   (set_limits ac r e)
                                     (''custom_name'' \<mapsto> JStr an, ''feagi_index'' \<mapsto> JInt 0)))\<rparr>,
                         list_to_not_delete_device := list_to_not_delete_device ast @ [ac],
                         increment := 0,
                         temp_copy_property_output :=
                           (set_limits ac r e)
                             (''custom_name'' \<mapsto> JStr an, ''feagi_index'' \<mapsto> JInt 0)\<rparr>))) \<and>
      (ac \<in> set (list_to_not_delete_device ast) \<longrightarrow>
         (\<exists>cur. output_caps (capabilities ast) ac = Some cur \<and>
            actuator_step ast (an, aty, r) =
              Inr (ast\<lparr>capabilities :=
                         (capabilities ast)\<lparr>output_caps :=
                            (output_caps (capabilities ast))
                              (ac \<mapsto> cur(str (increment ast + 1) \<mapsto>
                                 (set_limits ac r (temp_copy_property_output ast))
                                   (''custom_name'' \<mapsto> JStr an,
                                    ''feagi_index'' \<mapsto> JInt (int (increment ast + 1)))))\<rparr>,
                       list_to_not_delete_device := list_to_not_delete_device ast,
                       increment := increment ast + 1,
                       temp_copy_property_output :=
                         (set_limits ac r (temp_copy_property_output ast))
                           (''custom_name'' \<mapsto> JStr an,
                            ''feagi_index'' \<mapsto> JInt (int (increment ast + 1)))\<rparr>))))"
proof (intro conjI impI; elim conjE)
  assume p: "sensor_pass template pre = Inr st" and c: "SENSING_TYPES ty = Some c"
    and d: "input_caps template c = Some devs"
    and u: "c \<notin> set (list_to_not_delete_device st)"
  from sensor_pass_frame(2) [OF p u] d have cur: "input_caps (capabilities st) c = Some devs"
    by simp
  from sensor_step_first [OF c cur u, of n] cur
  show "sensor_step st (n, ty) =
           (case devs ''0'' of
              None \<Rightarrow> Inl KeyError
            | Some e \<Rightarrow>
                Inr (st\<lparr>capabilities :=
                           (capabilities st)\<lparr>input_caps :=
                              (input_caps (capabilities st))
                                (c \<mapsto> devs(''0'' \<mapsto>
                                   e(''custom_name'' \<mapsto> JStr n, ''feagi_index'' \<mapsto> JInt 0)))\<rparr>,
                         list_to_not_delete_device := list_to_not_delete_device st @ [c],
                         increment := 0,
                         temp_copy_property_input :=
                           e(''custom_name'' \<mapsto> JStr n, ''feagi_index'' \<mapsto> JInt 0)\<rparr>))"
    by (cases "devs ''0''") (simp_all add: store_input_known)
next
  assume p: "sensor_pass template pre = Inr st" and c: "SENSING_TYPES ty = Some c"
    and d: "input_caps template c = Some devs"
    and s: "c \<in> set (list_to_not_delete_device st)"
  from sensor_pass_frame(1) [OF p] d
  obtain cur where cur: "input_caps (capabilities st) c = Some cur"
    by (metis domI domD)
  from sensor_step_next [OF c cur s, of n] cur
  have "sensor_step st (n, ty) =
              Inr (st\<lparr>capabilities :=
                         (capabilities st)\<lparr>input_caps :=
                            (input_caps (capabilities st))
                              (c \<mapsto> cur(str (increment st + 1) \<mapsto>
                                 (temp_copy_property_input st)
                                   (''custom_name'' \<mapsto> JStr n,
                                    ''feagi_index'' \<mapsto> JInt (int (increment st + 1)))))\<rparr>,
                       list_to_not_delete_device := list_to_not_delete_device st,
                       increment := increment st + 1,
                       temp_copy_property_input :=
                         (temp_copy_property_input st)
                           (''custom_name'' \<mapsto> JStr n,
                            ''feagi_index'' \<mapsto> JInt (int (increment st + 1)))\<rparr>)"
    by (simp add: store_input_known)
  with cur show "\<exists>cur. input_caps (capabilities st) c = Some cur \<and>
            sensor_step st (n, ty) =
              Inr (st\<lparr>capabilities :=
                         (capabilities st)\<lparr>input_caps :=
                            (input_caps (capabilities st))
                              (c \<mapsto> cur(str (increment st + 1) \<mapsto>
                                 (temp_copy_property_input st)
                                   (''custom_name'' \<mapsto> JStr n,
                                    ''feagi_index'' \<mapsto> JInt (int (increment st + 1)))))\<rparr>,
                       list_to_not_delete_device := list_to_not_delete_device st,
                       increment := increment st + 1,
                       temp_copy_property_input :=
                         (temp_copy_property_input st)
                           (''custom_name'' \<mapsto> JStr n,
                            ''feagi_index'' \<mapsto> JInt (int (increment st + 1)))\<rparr>)"
    by blast
next
  assume p: "actuator_pass template sensors apre = Inr ast"
    and c: "TRANSMISSION_TYPES aty = Some ac"
    and d: "output_caps template ac = Some adevs"
    and u: "ac \<notin> set (list_to_not_delete_device ast)"
  from actuator_pass_frame(3) [OF p u] d
  have cur: "output_caps (capabilities ast) ac = Some adevs"
    by simp
  from actuator_step_first [OF c cur u, of an r] cur
  show "actuator_step ast (an, aty, r) =
           (case adevs ''0'' of
              None \<Rightarrow> Inl KeyError
            | Some e \<Rightarrow>
                Inr (ast\<lparr>capabilities :=
                           (capabilities ast)\<lparr>output_caps :=
                              (output_caps (capabilities ast))
                                (ac \<mapsto> adevs(''0'' \<mapsto>
                                   (set_limits ac r e)
                                     (''custom_name'' \<mapsto> JStr an, ''feagi_index'' \<mapsto> JInt 0)))\<rparr>,
                         list_to_not_delete_device := list_to_not_delete_device ast @ [ac],
                         increment := 0,
                         temp_copy_property_output :=
                           (set_limits ac r e)
                             (''custom_name'' \<mapsto> JStr an, ''feagi_index'' \<mapsto> JInt 0)\<rparr>))"
    by (cases "adevs ''0''") (simp_all add: store_output_known)
next
  assume p: "actuator_pass template sensors apre = Inr ast"
    and c: "TRANSMISSION_TYPES aty = Some ac"
    and d: "output_caps template ac = Some adevs"
    and s: "ac \<in> set (list_to_not_delete_device ast)"
  from actuator_pass_frame(2) [OF p] d
  obtain cur where cur: "output_caps (capabilities ast) ac = Some cur"
    by (metis domI domD)
  from actuator_step_next [OF c cur s, of an r] cur
  have "actuator_step ast (an, aty, r) =
              Inr (ast\<lparr>capabilities :=
                         (capabilities ast)\<lparr>output_caps :=
                            (output_caps (capabilities ast))
                              (ac \<mapsto> cur(str (increment ast + 1) \<mapsto>
                                 (set_limits ac r (temp_copy_property_output ast))
                                   (''custom_name'' \<mapsto> JStr an,
                                    ''feagi_index'' \<mapsto> JInt (int (increment ast + 1)))))\<rparr>,
                       list_to_not_delete_device := list_to_not_delete_device ast,
                       increment := increment ast + 1,
                       temp_copy_property_output :=
                         (set_limits ac r (temp_copy_property_output ast))
                           (''custom_name'' \<mapsto> JStr an,
                            ''feagi_index'' \<mapsto> JInt (int (increment ast + 1)))\<rparr>)"
    by (simp add: store_output_known)
  with cur show "\<exists>cur. output_caps (capabilities ast) ac = Some cur \<and>
            actuator_step ast (an, aty, r) =
              Inr (ast\<lparr>capabilities :=
                         (capabilities ast)\<lparr>output_caps :=
                            (output_caps (capabilities ast))
                              (ac \<mapsto> cur(str (increment ast + 1) \<mapsto>
                                 (set_limits ac r (temp_copy_property_output ast))
                                   (''custom_name'' \<mapsto> JStr an,
                                    ''feagi_index'' \<mapsto> JInt (int (increment ast + 1)))))\<rparr>,
                       list_to_not_delete_device := list_to_not_delete_device ast,
                       increment := increment ast + 1,
                       temp_copy_property_output :=
                         (set_limits ac r (temp_copy_property_output ast))
                           (''custom_name'' \<mapsto> JStr an,
                            ''feagi_index'' \<mapsto> JInt (int (increment ast + 1)))\<rparr>)"
    by blast
qed


theorem base_record_copied_then_reused_witness:
  "\<exists>s1 gd1 e1 st s2 gd2 e2 a1 sd1 f1 ast a2 sd2 f2.
     sensor_step (recon_init template_ex) (''g1'', ''framequat'') = Inr s1 \<and>
     increment s1 = 0 \<and>
     input_caps (capabilities s1) ''gyro'' = Some gd1 \<and> gd1 ''0'' = Some e1 \<and>
     temp_copy_property_input s1 = e1 \<and>
     e1 ''custom_name'' = Some (JStr ''g1'') \<and> e1 ''feagi_index'' = Some (JInt 0) \<and>
     input_caps (capabilities s1) ''proximity'' = input_caps template_ex ''proximity'' \<and>
     sensor_pass template_ex [(''g1'', ''framequat'')] = Inr st \<and>
     sensor_step st (''g2'', ''framequat'') = Inr s2 \<and>
     increment s2 = 1 \<and>
     input_caps (capabilities s2) ''gyro'' = Some gd2 \<and> gd2 ''1'' = Some e2 \<and>
     temp_copy_property_input s2 = e2 \<and>
     e2 = (temp_copy_property_input st)
            (''custom_name'' \<mapsto> JStr ''g2'', ''feagi_index'' \<mapsto> JInt 1) \<and>
     gd2 ''0'' = Some (temp_copy_property_input st) \<and>
     temp_copy_property_input st ''custom_name'' = Some (JStr ''g1'') \<and>
     actuator_step (actuator_start (recon_init template_ex)) (''a'', ''position'', - 1, 1) = Inr a1 \<and>
     increment a1 = 0 \<and>
     output_caps (capabilities a1) ''servo'' = Some sd1 \<and> sd1 ''0'' = Some f1 \<and>
     temp_copy_property_output a1 = f1 \<and>
     f1 ''custom_name'' = Some (JStr ''a'') \<and> f1 ''max_value'' = Some (JFloat 1) \<and>
     f1 ''min_value'' = Some (JFloat (- 1)) \<and>
     actuator_pass template_ex [] [(''a'', ''position'', - 1, 1)] = Inr ast \<and>
     actuator_step ast (''b'', ''position'', - 2, 2) = Inr a2 \<and>
     increment a2 = 1 \<and>
     output_caps (capabilities a2) ''servo'' = Some sd2 \<and> sd2 ''1'' = Some f2 \<and>
     temp_copy_property_output a2 = f2 \<and>
     f2 = (set_limits ''servo'' (- 2, 2) (temp_copy_property_output ast))
            (''custom_name'' \<mapsto> JStr ''b'', ''feagi_index'' \<mapsto> JInt 1) \<and>
     sd2 ''0'' = Some (temp_copy_property_output ast) \<and>
     temp_copy_property_output ast ''custom_name'' = Some (JStr ''a'')"
proof -
  note inst = base_record_copied_then_reused
  have sg: "SENSING_TYPES ''framequat'' = Some ''gyro''" by (simp add: SENSING_TYPES_def)
  have tp: "TRANSMISSION_TYPES ''position'' = Some ''servo''"
    by (simp add: TRANSMISSION_TYPES_def)
  obtain devs where devs: "input_caps template_ex ''gyro'' = Some devs"
    and devs0: "devs ''0'' = Some [''custom_name'' \<mapsto> JStr ''template_gyro'',
                                   ''feagi_index'' \<mapsto> JInt 0]"
    by (simp add: template_ex_def)
  obtain adevs where adevs: "output_caps template_ex ''servo'' = Some adevs"
    and adevs0: "adevs ''0'' = Some [''custom_name'' \<mapsto> JStr ''template_servo'',
                                    ''feagi_index'' \<mapsto> JInt 0,
                                    ''max_value'' \<mapsto> JFloat 180,
                                    ''min_value'' \<mapsto> JFloat 0]"
    by (simp add: template_ex_def)
  have p0: "sensor_pass template_ex [] = Inr (recon_init template_ex)"
    by (simp add: sensor_pass_def)
  have u0: "''gyro'' \<notin> set (list_to_not_delete_device (recon_init template_ex))"
    by (simp add: recon_init_def)
  have c0: "capabilities (recon_init template_ex) = template_ex"
    by (simp add: recon_init_def)
  from inst [where pre = "[]" and st = "recon_init template_ex" and template = template_ex
              and ty = "''framequat''" and c = "''gyro''" and devs = devs and n = "''g1''"]
       p0 sg devs u0 devs0
  obtain s1 where 1: "sensor_step (recon_init template_ex) (''g1'', ''framequat'') = Inr s1"
    and 2: "increment s1 = 0"
    and 3: "input_caps (capabilities s1) ''gyro'' =
              Some (devs(''0'' \<mapsto> temp_copy_property_input s1))"
    and 4: "temp_copy_property_input s1 ''custom_name'' = Some (JStr ''g1'')"
    and 5: "temp_copy_property_input s1 ''feagi_index'' = Some (JInt 0)"
    and 6: "input_caps (capabilities s1) ''proximity'' = input_caps template_ex ''proximity''"
    by (simp add: c0)
  obtain st where p1: "sensor_pass template_ex [(''g1'', ''framequat'')] = Inr st"
    and l1: "list_to_not_delete_device st = [''gyro'']" and i1: "increment st = 0"
    and g1: "\<exists>cur0. input_caps (capabilities st) ''gyro'' = Some cur0 \<and>
                cur0 ''0'' = Some (temp_copy_property_input st)"
    and n1: "temp_copy_property_input st ''custom_name'' = Some (JStr ''g1'')"
    by (simp add: eval_defs)
  from l1 have m1: "''gyro'' \<in> set (list_to_not_delete_device st)" by simp
  from inst [where pre = "[(''g1'', ''framequat'')]" and st = st and template = template_ex
              and ty = "''framequat''" and c = "''gyro''" and devs = devs and n = "''g2''"]
       p1 sg devs m1
  obtain cur where cur: "input_caps (capabilities st) ''gyro'' = Some cur"
    and step2: "sensor_step st (''g2'', ''framequat'') =
              Inr (st\<lparr>capabilities :=
                         (capabilities st)\<lparr>input_caps :=
                            (input_caps (capabilities st))
                              (''gyro'' \<mapsto> cur(str (increment st + 1) \<mapsto>
                                 (temp_copy_property_input st)
                                   (''custom_name'' \<mapsto> JStr ''g2'',
                                    ''feagi_index'' \<mapsto> JInt (int (increment st + 1)))))\<rparr>,
                       list_to_not_delete_device := list_to_not_delete_device st,
                       increment := increment st + 1,
                       temp_copy_property_input :=
                         (temp_copy_property_input st)
                           (''custom_name'' \<mapsto> JStr ''g2'',
                            ''feagi_index'' \<mapsto> JInt (int (increment st + 1)))\<rparr>)"
    by blast
  from cur g1 have cur0: "cur ''0'' = Some (temp_copy_property_input st)" by auto
  from step2 i1 cur0
  obtain s2 where 7: "sensor_step st (''g2'', ''framequat'') = Inr s2"
    and 8: "increment s2 = 1"
    and 9: "input_caps (capabilities s2) ''gyro'' =
              Some (cur(''1'' \<mapsto> temp_copy_property_input s2))"
    and 10: "temp_copy_property_input s2 =
       (temp_copy_property_input st)(''custom_name'' \<mapsto> JStr ''g2'', ''feagi_index'' \<mapsto> JInt 1)"
    by (simp add: str_digits)
  have q0: "actuator_pass template_ex [] [] = Inr (actuator_start (recon_init template_ex))"
    by (simp add: actuator_pass_def sensor_pass_def)
  have v0: "''servo'' \<notin> set (list_to_not_delete_device (actuator_start (recon_init template_ex)))"
    by (simp add: recon_init_def actuator_start_def)
  have d0: "capabilities (actuator_start (recon_init template_ex)) = template_ex"
    by (simp add: recon_init_def actuator_start_def)
  from inst [where apre = "[]" and ast = "actuator_start (recon_init template_ex)"
              and template = template_ex and sensors = "[]"
              and aty = "''position''" and ac = "''servo''" and adevs = adevs and an = "''a''"
              and r = "(- 1, 1)"]
       q0 tp adevs v0 adevs0
  obtain a1 where 11: "actuator_step (actuator_start (recon_init template_ex))
                        (''a'', ''position'', - 1, 1) = Inr a1"
    and 12: "increment a1 = 0"
    and 13: "output_caps (capabilities a1) ''servo'' =
               Some (adevs(''0'' \<mapsto> temp_copy_property_output a1))"
    and 14: "temp_copy_property_output a1 ''custom_name'' = Some (JStr ''a'')"
    and 15: "temp_copy_property_output a1 ''max_value'' = Some (JFloat 1)"
    and 16: "temp_copy_property_output a1 ''min_value'' = Some (JFloat (- 1))"
    by (simp add: set_limits_def d0)
  obtain ast where q1: "actuator_pass template_ex [] [(''a'', ''position'', - 1, 1)] = Inr ast"
    and k1: "list_to_not_delete_device ast = [''servo'']" and j1: "increment ast = 0"
    and h1: "\<exists>cur0. output_caps (capabilities ast) ''servo'' = Some cur0 \<and>
                cur0 ''0'' = Some (temp_copy_property_output ast)"
    and o1: "temp_copy_property_output ast ''custom_name'' = Some (JStr ''a'')"
    by (simp add: eval_defs)
  from k1 have n1': "''servo'' \<in> set (list_to_not_delete_device ast)" by simp
  from inst [where apre = "[(''a'', ''position'', - 1, 1)]" and ast = ast
              and template = template_ex and sensors = "[]"
              and aty = "''position''" and ac = "''servo''" and adevs = adevs and an = "''b''"
              and r = "(- 2, 2)"]
       q1 tp adevs n1'
  obtain acur where acur: "output_caps (capabilities ast) ''servo'' = Some acur"
    and step4: "actuator_step ast (''b'', ''position'', - 2, 2) =
              Inr (ast\<lparr>capabilities :=
                         (capabilities ast)\<lparr>output_caps :=
                            (output_caps (capabilities ast))
                              (''servo'' \<mapsto> acur(str (increment ast + 1) \<mapsto>
                                 (set_limits ''servo'' (- 2, 2) (temp_copy_property_output ast))
                                   (''custom_name'' \<mapsto> JStr ''b'',
                                    ''feagi_index'' \<mapsto> JInt (int (increment ast + 1)))))\<rparr>,
                       list_to_not_delete_device := list_to_not_delete_device ast,
                       increment := increment ast + 1,
                       temp_copy_property_output :=
                         (set_limits ''servo'' (- 2, 2) (temp_copy_property_output ast))
                           (''custom_name'' \<mapsto> JStr ''b'',
                            ''feagi_index'' \<mapsto> JInt (int (increment ast + 1)))\<rparr>)"
    by blast
  from acur h1 have acur0: "acur ''0'' = Some (temp_copy_property_output ast)" by auto
  from step4 j1 acur0
  obtain a2 where 17: "actuator_step ast (''b'', ''position'', - 2, 2) = Inr a2"
    and 18: "increment a2 = 1"
    and 19: "output_caps (capabilities a2) ''servo'' =
               Some (acur(''1'' \<mapsto> temp_copy_property_output a2))"
    and 20: "temp_copy_property_output a2 =
       (set_limits ''servo'' (- 2, 2) (temp_copy_property_output ast))
         (''custom_name'' \<mapsto> JStr ''b'', ''feagi_index'' \<mapsto> JInt 1)"
    by (simp add: str_digits)
  have A: "(devs(''0'' \<mapsto> temp_copy_property_input s1)) ''0'' =
             Some (temp_copy_property_input s1)"
    by simp
  have B: "(cur(''1'' \<mapsto> temp_copy_property_input s2)) ''1'' =
             Some (temp_copy_property_input s2)"
    "(cur(''1'' \<mapsto> temp_copy_property_input s2)) ''0'' = Some (temp_copy_property_input st)"
    using cur0 by simp_all
  have C: "(adevs(''0'' \<mapsto> temp_copy_property_output a1)) ''0'' =
             Some (temp_copy_property_output a1)"
    by simp
  have D: "(acur(''1'' \<mapsto> temp_copy_property_output a2)) ''1'' =
             Some (temp_copy_property_output a2)"
    "(acur(''1'' \<mapsto> temp_copy_property_output a2)) ''0'' = Some (temp_copy_property_output ast)"
    using acur0 by simp_all
  show ?thesis
    using 1 2 3 A 4 5 6 p1 7 8 9 B 10 n1 11 12 13 C 14 15 16 q1 17 18 19 D 20 o1
    by blast
qed

section \<open>Index assignment\<close>

text \<open>
  Claim C1 on the scene \<open>sensors_ex\<close>: a gyro, two proximity sensors, a second gyro. There
  is one counter for all categories, so the second gyro takes the counter the proximity
  sensors left, incremented: the gyro category ends with the indices 0 and 2 and no index
  1, and the entry at index 2 is built on the proximity base record (it keeps the
  \<open>max_value\<close> of the proximity template entry).
\<close>

theorem interleaved_categories_share_the_counter:
  "\<exists>final gyro e.
     reconcile template_ex sensors_ex [] = Inr final \<and>
     input_caps final ''gyro'' = Some gyro \<and>
     dom gyro = {''0'', ''2''} \<and>
     gyro ''2'' = Some e \<and>
     e ''custom_name'' = Some (JStr ''g2'') \<and>
     e ''feagi_index'' = Some (JInt 2) \<and>
     e ''max_value'' = Some (JFloat 10)"
  by (simp add: eval_defs dom_def, blast)

section \<open>Contact forces\<close>

lemma fold_upd_other:
  "k \<notin> key ` set xs \<Longrightarrow> fold (\<lambda>i fl. fl(key i \<mapsto> val i)) xs fl k = fl k"
  by (induction xs arbitrary: fl) auto

lemma fold_upd_dom:
  "dom (fold (\<lambda>i fl. fl(key i \<mapsto> val i)) xs fl) = dom fl \<union> key ` set xs"
  by (induction xs arbitrary: fl) auto

lemma fold_upd_at:
  "inj_on key (set xs) \<Longrightarrow> i \<in> set xs \<Longrightarrow>
   fold (\<lambda>i fl. fl(key i \<mapsto> val i)) xs fl (key i) = Some (val i)"
proof (induction xs arbitrary: fl)
  case Nil
  then show ?case by simp
next
  case (Cons x xs)
  show ?case
  proof (cases "i \<in> set xs")
    case True
    with Cons show ?thesis by simp
  next
    case False
    with Cons.prems have ix: "i = x" by simp
    from Cons.prems(1) False ix have "key i \<notin> key ` set xs" by (auto simp: inj_on_def)
    then have "fold (\<lambda>i fl. fl(key i \<mapsto> val i)) xs (fl(key i \<mapsto> val i)) (key i) =
               (fl(key i \<mapsto> val i)) (key i)"
      by (rule fold_upd_other)
    also have "\<dots> = Some (val i)" by (simp only: fun_upd_same)
    finally show ?thesis by (simp only: ix fold_simps comp_apply)
  qed
qed

lemma inj_on_str: "inj_on str A"
  by (simp add: inj_on_def str_inj)

lemma force_list_init_dom: "dom (force_list_init :: string \<rightharpoonup> 'f json) = str ` {..<20}"
  unfolding force_list_init_def
  using fold_upd_dom [of str "\<lambda>x. JList [JInt 0, JInt 0, JInt 0 :: 'f json]" "[0..<20]" Map.empty]
  by (simp add: lessThan_atLeast0)

lemma sample_contacts_at:
  "i < ncon \<Longrightarrow>
   sample_contacts force ncon force_list (str i) =
     Some (case force i of (fx, fy, fz) \<Rightarrow> JList [JFloat fx, JFloat fy, JFloat fz])"
  unfolding sample_contacts_def
  using fold_upd_at [of str "[0..<ncon]" i
          "\<lambda>i. case force i of (fx, fy, fz) \<Rightarrow> JList [JFloat fx, JFloat fy, JFloat fz]" force_list]
  by (simp add: inj_on_str)

lemma sample_contacts_other:
  "k \<notin> str ` {..<ncon} \<Longrightarrow> sample_contacts force ncon force_list k = force_list k"
  unfolding sample_contacts_def
  using fold_upd_other [of k str "[0..<ncon]"
          "\<lambda>i. case force i of (fx, fy, fz) \<Rightarrow> JList [JFloat fx, JFloat fy, JFloat fz]" force_list]
  by (simp add: lessThan_atLeast0)

lemma sample_contacts_dom:
  "dom (sample_contacts force ncon force_list) = dom force_list \<union> str ` {..<ncon}"
  unfolding sample_contacts_def
  using fold_upd_dom [of str
          "\<lambda>i. case force i of (fx, fy, fz) \<Rightarrow> JList [JFloat fx, JFloat fy, JFloat fz]"
          "[0..<ncon]" force_list]
  by (simp add: lessThan_atLeast0)

text \<open>
  Claim C3, as the code has it. The record starts with the twenty keys \<open>"0"\<close> to \<open>"19"\<close>. A
  tick stores every active contact under the decimal string of its index, whatever the
  index: a contact with index 20 or more adds a key, so the record grows beyond twenty
  entries and nothing is left out. Keys of no active contact keep their value, and sampling
  is total, so no error is reported.
\<close>

theorem every_contact_is_recorded:
  fixes force :: "nat \<Rightarrow> 'f \<times> 'f \<times> 'f"
  shows
  "dom (force_list_init :: string \<rightharpoonup> 'f json) = str ` {..<20} \<and>
   (\<forall>i < ncon. sample_contacts force ncon force_list (str i) =
       Some (case force i of (fx, fy, fz) \<Rightarrow> JList [JFloat fx, JFloat fy, JFloat fz])) \<and>
   (\<forall>k. k \<notin> str ` {..<ncon} \<longrightarrow> sample_contacts force ncon force_list k = force_list k) \<and>
   dom (sample_contacts force ncon force_list) = dom force_list \<union> str ` {..<ncon}"
  using force_list_init_dom sample_contacts_at [of _ ncon force force_list]
    sample_contacts_other [of _ ncon force force_list]
    sample_contacts_dom [of force ncon force_list]
  by blast


theorem every_contact_is_recorded_witness:
  "(20::nat) < 21 \<and>
   sample_contacts (\<lambda>i. (1, 2, 3::real)) 21 force_list_init (str 20) =
     Some (JList [JFloat 1, JFloat 2, JFloat 3]) \<and>
   str 19 \<notin> str ` {..<3} \<and>
   sample_contacts (\<lambda>i. (1, 2, 3::real)) 3 force_list_init (str 19) = force_list_init (str 19) \<and>
   dom (sample_contacts (\<lambda>i. (1, 2, 3::real)) 21 force_list_init) = str ` {..<20} \<union> str ` {..<21}"
proof -
  have a: "(20::nat) < 21" by simp
  have b: "str 19 \<notin> str ` {..<3}" by (auto simp: str_inj)
  note inst = every_contact_is_recorded [where ncon = 21 and force = "\<lambda>i. (1::real, 2::real, 3::real)"
         and force_list = force_list_init]
  from inst [THEN conjunct2, THEN conjunct1, rule_format, OF a]
  have 1: "sample_contacts (\<lambda>i. (1, 2, 3::real)) 21 force_list_init (str 20) =
     Some (JList [JFloat 1, JFloat 2, JFloat 3])"
    by simp
  from inst
  have 2: "dom (sample_contacts (\<lambda>i. (1, 2, 3::real)) 21 force_list_init) =
              str ` {..<20} \<union> str ` {..<21}"
    by simp
  from every_contact_is_recorded [where ncon = 3 and force = "\<lambda>i. (1::real, 2::real, 3::real)"
         and force_list = force_list_init,
         THEN conjunct2, THEN conjunct2, THEN conjunct1, rule_format, OF b]
  have 3: "sample_contacts (\<lambda>i. (1, 2, 3::real)) 3 force_list_init (str 19) =
             force_list_init (str 19)"
    by simp
  from a b 1 2 3 show ?thesis by blast
qed

text \<open>
  Claim C3 as the specification words it says that a contact index beyond the twenty slots
  is not recorded. With 21 active contacts the key \<open>"20"\<close>, which the record did not have,
  holds the force of contact 20 after the tick.
\<close>

theorem contact_beyond_twenty_counterexample:
  "''20'' \<notin> dom (force_list_init :: string \<rightharpoonup> real json) \<and>
   sample_contacts (\<lambda>i. (1, 2, 3::real)) 21 force_list_init ''20'' =
     Some (JList [JFloat 1, JFloat 2, JFloat 3])"
proof -
  have k: "str 20 = ''20''" by code_simp
  have "str 20 \<notin> dom (force_list_init :: string \<rightharpoonup> real json)"
    by (auto simp: force_list_init_dom str_inj)
  moreover have "sample_contacts (\<lambda>i. (1, 2, 3::real)) 21 force_list_init (str 20) =
     Some (JList [JFloat 1, JFloat 2, JFloat 3])"
    using sample_contacts_at [of 20 21 "\<lambda>i. (1, 2, 3::real)" force_list_init] by simp
  ultimately show ?thesis by (simp add: k)
qed

section \<open>Inbound commands\<close>

lemma apply_channel_nonneg:
  assumes "0 \<le> k"
  shows "apply_channel ctrl (k, v) =
           Inr (if nat k < length ctrl then ctrl[nat k := v] else ctrl)"
  using assms by (auto simp: apply_channel_def ctrl_set_def Let_def)

lemma for_each_apply_channel:
  assumes "\<forall>kv \<in> set payload. 0 \<le> fst kv"
  shows "\<exists>ctrl'. for_each apply_channel ctrl payload = Inr ctrl' \<and>
           length ctrl' = length ctrl \<and>
           (\<forall>i < length ctrl. ctrl' ! i =
              (case map_of (rev payload) (int i) of None \<Rightarrow> ctrl ! i | Some v \<Rightarrow> v))"
  using assms
proof (induction payload arbitrary: ctrl)
  case Nil
  then show ?case by simp
next
  case (Cons kv payload)
  obtain k v where kv: "kv = (k, v)" by (cases kv)
  from Cons.prems kv have k: "0 \<le> k" by simp
  let ?c = "if nat k < length ctrl then ctrl[nat k := v] else ctrl"
  have step: "apply_channel ctrl (k, v) = Inr ?c" using k by (rule apply_channel_nonneg)
  have len: "length ?c = length ctrl" by simp
  from Cons.prems have "\<forall>kv \<in> set payload. 0 \<le> fst kv" by simp
  from Cons.IH [OF this, of ?c] obtain ctrl'
    where r: "for_each apply_channel ?c payload = Inr ctrl'"
      and l: "length ctrl' = length ?c"
      and v: "\<forall>i < length ?c. ctrl' ! i =
              (case map_of (rev payload) (int i) of None \<Rightarrow> ?c ! i | Some v \<Rightarrow> v)"
    by blast
  have "for_each apply_channel ctrl (kv # payload) = Inr ctrl'"
    using step r by (simp add: kv)
  moreover have "length ctrl' = length ctrl" using l len by simp
  moreover have "ctrl' ! i =
      (case map_of (rev (kv # payload)) (int i) of None \<Rightarrow> ctrl ! i | Some v \<Rightarrow> v)"
    if i: "i < length ctrl" for i
  proof -
    from v i len have a: "ctrl' ! i =
              (case map_of (rev payload) (int i) of None \<Rightarrow> ?c ! i | Some v \<Rightarrow> v)"
      by simp
    show ?thesis
    proof (cases "map_of (rev payload) (int i)")
      case (Some w)
      with a show ?thesis by (simp add: kv map_add_def)
    next
      case None
      with a have "ctrl' ! i = ?c ! i" by simp
      also have "\<dots> = (if int i = k then v else ctrl ! i)"
        using i k by (auto simp: nth_list_update)
      finally show ?thesis using None by (simp add: kv map_add_def)
    qed
  qed
  ultimately show ?case by blast
qed


text \<open>
  Claim C6, for payloads whose channel indices are not negative. \<open>action\<close> raises nothing
  and keeps the length of the control array. A slot whose index is listed in a payload holds
  the value listed last for it (position commands are applied first, servo commands after
  them); a slot whose index is listed in neither payload is unchanged; an index at or above
  the number of slots changes nothing.
\<close>

theorem action_sets_listed_slots_only:
  assumes "\<forall>kv \<in> set recieve_servo_position_data. 0 \<le> fst kv"
    and "\<forall>kv \<in> set recieve_servo_data. 0 \<le> fst kv"
  shows "\<exists>ctrl'. action recieve_servo_position_data recieve_servo_data ctrl = Inr ctrl' \<and>
           length ctrl' = length ctrl \<and>
           (\<forall>i < length ctrl. ctrl' ! i =
              (case map_of (rev (recieve_servo_position_data @ recieve_servo_data)) (int i) of
                 None \<Rightarrow> ctrl ! i | Some v \<Rightarrow> v)) \<and>
           (\<forall>i < length ctrl.
              int i \<notin> fst ` set (recieve_servo_position_data @ recieve_servo_data) \<longrightarrow>
              ctrl' ! i = ctrl ! i)"
proof -
  from for_each_apply_channel [OF assms(1), of ctrl] obtain c1
    where 1: "for_each apply_channel ctrl recieve_servo_position_data = Inr c1"
      and l1: "length c1 = length ctrl"
      and v1: "\<forall>i < length ctrl. c1 ! i =
                (case map_of (rev recieve_servo_position_data) (int i) of
                   None \<Rightarrow> ctrl ! i | Some v \<Rightarrow> v)"
    by blast
  from for_each_apply_channel [OF assms(2), of c1] obtain c2
    where 2: "for_each apply_channel c1 recieve_servo_data = Inr c2"
      and l2: "length c2 = length c1"
      and v2: "\<forall>i < length c1. c2 ! i =
                (case map_of (rev recieve_servo_data) (int i) of
                   None \<Rightarrow> c1 ! i | Some v \<Rightarrow> v)"
    by blast
  have a: "action recieve_servo_position_data recieve_servo_data ctrl = Inr c2"
  proof -
    have "(if recieve_servo_position_data \<noteq> []
           then for_each apply_channel ctrl recieve_servo_position_data else Inr ctrl) = Inr c1"
      using 1 by (cases recieve_servo_position_data) auto
    moreover have "(if recieve_servo_data \<noteq> []
           then for_each apply_channel c1 recieve_servo_data else Inr c1) = Inr c2"
      using 2 by (cases recieve_servo_data) auto
    ultimately show ?thesis by (simp add: action_def)
  qed
  have v: "c2 ! i =
      (case map_of (rev (recieve_servo_position_data @ recieve_servo_data)) (int i) of
         None \<Rightarrow> ctrl ! i | Some v \<Rightarrow> v)" if i: "i < length ctrl" for i
  proof -
    from v2 l1 i have "c2 ! i =
        (case map_of (rev recieve_servo_data) (int i) of None \<Rightarrow> c1 ! i | Some v \<Rightarrow> v)"
      by simp
    with v1 i show ?thesis
      by (simp add: map_add_def split: option.splits)
  qed
  have u: "c2 ! i = ctrl ! i"
    if i: "i < length ctrl"
      and n: "int i \<notin> fst ` set (recieve_servo_position_data @ recieve_servo_data)" for i
  proof -
    from n have "map_of (rev (recieve_servo_position_data @ recieve_servo_data)) (int i) = None"
      unfolding map_of_eq_None_iff by auto
    with v [OF i] show ?thesis by (simp only: option.case)
  qed
  from a l1 l2 v u show ?thesis by auto
qed

theorem action_sets_listed_slots_only_witness:
  "action [] [(0, 1 / 2), (2, 1), (5, 9)] [7, 8, 9 :: real] = Inr [1 / 2, 8, 1]"
proof -
  have h1: "\<forall>kv \<in> set ([] :: (int \<times> real) list). 0 \<le> fst kv" by simp
  have h2: "\<forall>kv \<in> set [(0, 1 / 2), (2, 1), (5, 9 :: real)]. (0::int) \<le> fst kv" by simp
  from action_sets_listed_slots_only [OF h1 h2, of "[7, 8, 9]"] obtain ctrl'
    where a: "action [] [(0, 1 / 2), (2, 1), (5, 9)] [7, 8, 9 :: real] = Inr ctrl'"
      and l: "length ctrl' = 3"
      and v: "\<forall>i < 3. ctrl' ! i =
              (case map_of (rev ([] @ [(0, 1 / 2), (2, 1), (5, 9 :: real)])) (int i) of
                 None \<Rightarrow> [7, 8, 9] ! i | Some v \<Rightarrow> v)"
    by auto
  have "ctrl' = [1 / 2, 8, 1]"
  proof (rule nth_equalityI)
    show "length ctrl' = length [1 / 2, 8, 1 :: real]" using l by simp
  next
    fix i assume "i < length ctrl'"
    with l have "i = 0 \<or> i = 1 \<or> i = 2" by auto
    with v show "ctrl' ! i = [1 / 2, 8, 1] ! i" by auto
  qed
  with a show ?thesis by simp
qed

text \<open>
  Claim C6 as the specification words it covers every payload. The guard of \<open>action\<close> tests
  the upper bound only: the negative index \<open>-1\<close> passes it and writes the last slot, which
  the payload does not list, and the index \<open>-5\<close> on three slots raises \<open>IndexError\<close>.
\<close>

theorem negative_channel_counterexample:
  "action [(- 1, 5)] [] [0, 0, 0 :: real] = Inr [0, 0, 5] \<and>
   action [(- 5, 5)] [] [0, 0, 0 :: real] = Inl IndexError"
  by (simp add: action_def apply_channel_def ctrl_set_def)

section \<open>Actuator limits\<close>

lemma stamped_limits:
  assumes "e = (set_limits c (lo, hi) base)
                 (''custom_name'' \<mapsto> JStr n, ''feagi_index'' \<mapsto> JInt k)"
  shows "e ''custom_name'' = Some (JStr n)"
    and "e ''feagi_index'' = Some (JInt k)"
    and "c = ''servo'' \<Longrightarrow> e ''max_value'' = Some (JFloat hi) \<and> e ''min_value'' = Some (JFloat lo)"
    and "c = ''motor'' \<Longrightarrow>
           e ''max_power'' = Some (JFloat hi) \<and> e ''rolling_window_len'' = Some (JInt 2)"
  using assms by (simp_all add: set_limits_def)

lemma actuator_pass_append:
  "actuator_pass template sensors (xs @ ys) =
     (case actuator_pass template sensors xs of
        Inl e \<Rightarrow> Inl e
      | Inr s \<Rightarrow> for_each actuator_step s ys)"
  by (simp add: actuator_pass_def for_each_append split: sum.splits)

text \<open>The index the next actuator of category \<open>ac\<close> is stored at, and what one iteration
  does to it.\<close>

lemma actuator_step_index:
  assumes k: "TRANSMISSION_TYPES ty = Some ac"
    and devs: "output_caps (capabilities a) ac = Some devs"
    and step: "actuator_step a (n, ty, r) = Inr b"
  shows "increment b = (if ac \<in> set (list_to_not_delete_device a) then increment a + 1 else 0)"
    and "ac \<in> set (list_to_not_delete_device b)"
proof -
  have "increment b = (if ac \<in> set (list_to_not_delete_device a) then increment a + 1 else 0)
        \<and> ac \<in> set (list_to_not_delete_device b)"
  proof (cases "ac \<in> set (list_to_not_delete_device a)")
    case True
    from step actuator_step_next [OF k devs True, of n r]
    have "b = a\<lparr>capabilities :=
                store_output ac (str (increment a + 1))
                  ((set_limits ac r (temp_copy_property_output a))
                     (''custom_name'' \<mapsto> JStr n, ''feagi_index'' \<mapsto> JInt (int (increment a + 1))))
                  (capabilities a),
              list_to_not_delete_device := list_to_not_delete_device a,
              increment := increment a + 1,
              temp_copy_property_output :=
                (set_limits ac r (temp_copy_property_output a))
                  (''custom_name'' \<mapsto> JStr n, ''feagi_index'' \<mapsto> JInt (int (increment a + 1)))\<rparr>"
      by simp
    then show ?thesis using True by simp
  next
    case False
    show ?thesis
    proof (cases "devs ''0''")
      case None
      with step actuator_step_first [OF k devs False, of n r] show ?thesis by simp
    next
      case (Some e)
      with step actuator_step_first [OF k devs False, of n r]
      have "b = a\<lparr>capabilities :=
                     store_output ac ''0''
                       ((set_limits ac r e)(''custom_name'' \<mapsto> JStr n, ''feagi_index'' \<mapsto> JInt 0))
                       (capabilities a),
                   list_to_not_delete_device := list_to_not_delete_device a @ [ac],
                   increment := 0,
                   temp_copy_property_output :=
                     (set_limits ac r e)(''custom_name'' \<mapsto> JStr n, ''feagi_index'' \<mapsto> JInt 0)\<rparr>"
        by simp
      then show ?thesis using False by simp
    qed
  qed
  then show "increment b = (if ac \<in> set (list_to_not_delete_device a) then increment a + 1 else 0)"
    and "ac \<in> set (list_to_not_delete_device b)"
    by simp_all
qed

text \<open>An actuator of another category leaves the category \<open>ac\<close> as it is.\<close>

lemma actuator_step_other:
  assumes "TRANSMISSION_TYPES ty \<noteq> Some ac" and "actuator_step a (n, ty, r) = Inr b"
  shows "output_caps (capabilities b) ac = output_caps (capabilities a) ac"
proof (cases "\<exists>k kd. TRANSMISSION_TYPES ty = Some k \<and> output_caps (capabilities a) k = Some kd")
  case False
  then have "TRANSMISSION_TYPES ty = None \<or>
    (\<exists>k. TRANSMISSION_TYPES ty = Some k \<and> output_caps (capabilities a) k = None)"
    by (cases "TRANSMISSION_TYPES ty") auto
  from actuator_step_skip [OF this, of n r] assms(2) have "b = a" by simp
  then show ?thesis by simp
next
  case True
  then obtain k kd where k: "TRANSMISSION_TYPES ty = Some k"
    and kd: "output_caps (capabilities a) k = Some kd"
    by blast
  from k assms(1) have "k \<noteq> ac" by auto
  then show ?thesis
    by (simp add: actuator_step_recorded(1) [OF k kd assms(2)] store_output_simps)
qed

lemma actuator_loop_other:
  assumes "for_each actuator_step s xs = Inr s'"
    and "\<forall>d \<in> set xs. TRANSMISSION_TYPES (fst (snd d)) \<noteq> Some ac"
  shows "output_caps (capabilities s') ac = output_caps (capabilities s) ac"
proof (rule for_each_invariant [OF assms(1),
         where P = "\<lambda>a. output_caps (capabilities a) ac = output_caps (capabilities s) ac"])
  show "output_caps (capabilities s) ac = output_caps (capabilities s) ac" ..
next
  fix a x b
  assume pa: "output_caps (capabilities a) ac = output_caps (capabilities s) ac"
    and x: "x \<in> set xs" and step: "actuator_step a x = Inr b"
  obtain n ty r where xe: "x = (n, ty, r)" by (cases x)
  from assms(2) x xe have o: "TRANSMISSION_TYPES ty \<noteq> Some ac" by force
  from step xe have "actuator_step a (n, ty, r) = Inr b" by simp
  from actuator_step_other [OF o this] pa
  show "output_caps (capabilities b) ac = output_caps (capabilities s) ac" by simp
qed


text \<open>
  A stretch of the actuator loop in which every actuator either belongs to the category
  \<open>ac\<close> or is skipped: the index the next actuator of \<open>ac\<close> would get grows by the number
  of actuators of \<open>ac\<close> in the stretch, and the entries below the index at the start stay.
\<close>

lemma actuator_loop_run:
  assumes "for_each actuator_step s xs = Inr s'"
    and "\<forall>d \<in> set xs. \<forall>c. TRANSMISSION_TYPES (fst (snd d)) = Some c \<longrightarrow>
           c = ac \<or> output_caps (capabilities s) c = None"
    and "output_caps (capabilities s) ac = Some devs"
  shows "\<exists>devs'. output_caps (capabilities s') ac = Some devs' \<and>
           (\<forall>k < (if ac \<in> set (list_to_not_delete_device s) then increment s + 1 else 0).
              devs' (str k) = devs (str k)) \<and>
           (if ac \<in> set (list_to_not_delete_device s') then increment s' + 1 else 0) =
             (if ac \<in> set (list_to_not_delete_device s) then increment s + 1 else 0) +
             length (filter (\<lambda>d. TRANSMISSION_TYPES (fst (snd d)) = Some ac) xs) \<and>
           (ac \<in> set (list_to_not_delete_device s) \<longrightarrow>
              ac \<in> set (list_to_not_delete_device s'))"
  using assms
proof (induction xs arbitrary: s devs)
  case Nil
  then show ?case by simp
next
  case (Cons x xs)
  obtain n ty r where xe: "x = (n, ty, r)" by (cases x)
  from Cons.prems(1) xe obtain a where step: "actuator_step s (n, ty, r) = Inr a"
    and rest: "for_each actuator_step a xs = Inr s'"
    by (auto split: sum.splits)
  let ?nxt = "\<lambda>s. if ac \<in> set (list_to_not_delete_device s) then increment s + 1 else 0"
  show ?case
  proof (cases "TRANSMISSION_TYPES ty = Some ac")
    case True
    note rec = actuator_step_recorded [OF True Cons.prems(3) step]
    note idx = actuator_step_index [OF True Cons.prems(3) step]
    have inc: "increment a = ?nxt s" using idx(1) by simp
    have outa: "output_caps (capabilities a) =
        (output_caps (capabilities s))
          (ac \<mapsto> devs(str (?nxt s) \<mapsto> temp_copy_property_output a))"
      using Cons.prems(3) inc by (simp add: rec(1) store_output_simps)
    then have da: "output_caps (capabilities a) ac =
        Some (devs(str (?nxt s) \<mapsto> temp_copy_property_output a))"
      by simp
    have conda: "\<forall>d \<in> set xs. \<forall>c. TRANSMISSION_TYPES (fst (snd d)) = Some c \<longrightarrow>
           c = ac \<or> output_caps (capabilities a) c = None"
      using Cons.prems(2) outa by auto
    from Cons.IH [OF rest conda da] obtain devs'
      where 1: "output_caps (capabilities s') ac = Some devs'"
        and 2: "\<forall>k < ?nxt a.
                  devs' (str k) = (devs(str (?nxt s) \<mapsto> temp_copy_property_output a)) (str k)"
        and 3: "?nxt s' = ?nxt a +
                  length (filter (\<lambda>d. TRANSMISSION_TYPES (fst (snd d)) = Some ac) xs)"
        and 4: "ac \<in> set (list_to_not_delete_device a) \<longrightarrow>
                  ac \<in> set (list_to_not_delete_device s')"
      by blast
    have na: "?nxt a = ?nxt s + 1" using idx(2) inc by simp
    have "\<forall>k < ?nxt s. devs' (str k) = devs (str k)"
    proof (intro allI impI)
      fix k assume k: "k < ?nxt s"
      with na have "k < ?nxt a" by simp
      with 2 have "devs' (str k) =
          (devs(str (?nxt s) \<mapsto> temp_copy_property_output a)) (str k)"
        by blast
      moreover from k have "str k \<noteq> str (?nxt s)" by (simp add: str_inj)
      ultimately show "devs' (str k) = devs (str k)" by simp
    qed
    moreover have "?nxt s' = ?nxt s +
        length (filter (\<lambda>d. TRANSMISSION_TYPES (fst (snd d)) = Some ac) (x # xs))"
      using 3 na True xe by simp
    moreover have "ac \<in> set (list_to_not_delete_device s')" using 4 idx(2) by simp
    ultimately show ?thesis using 1 by blast
  next
    case False
    have "TRANSMISSION_TYPES ty = None \<or>
      (\<exists>c. TRANSMISSION_TYPES ty = Some c \<and> output_caps (capabilities s) c = None)"
    proof (cases "TRANSMISSION_TYPES ty")
      case None
      then show ?thesis by simp
    next
      case (Some c)
      with False have "c \<noteq> ac" by simp
      with Cons.prems(2) xe Some have "output_caps (capabilities s) c = None" by auto
      with Some show ?thesis by simp
    qed
    from actuator_step_skip [OF this, of n r] step have "a = s" by simp
    with rest have rest': "for_each actuator_step s xs = Inr s'" by simp
    have cond': "\<forall>d \<in> set xs. \<forall>c. TRANSMISSION_TYPES (fst (snd d)) = Some c \<longrightarrow>
           c = ac \<or> output_caps (capabilities s) c = None"
      using Cons.prems(2) by simp
    from Cons.IH [OF rest' cond' Cons.prems(3)] False xe show ?thesis by simp
  qed
qed


lemma transmission_not_sensing:
  "TRANSMISSION_TYPES x = Some c \<Longrightarrow> SENSING_TYPES y \<noteq> Some c"
  by (auto simp: TRANSMISSION_TYPES_def SENSING_TYPES_def split: if_splits)

text \<open>
  Claim C5, as the code has it. Take a discovered actuator whose category is a key of the
  template's output section, in a scene where the actuators of that category are discovered
  with nothing between them but actuators that are skipped (the list of actuators is
  \<open>apre @ r1 @ [actuator] @ r2 @ apost\<close>, no actuator of \<open>apre\<close> or \<open>apost\<close> is of the
  category, and every actuator of \<open>r1\<close> and \<open>r2\<close> is of the category or of none the section
  has). If the reconciliation returns, the final output holds under that category, at the
  index that counts the category's actuators discovered before this one, an entry with the
  actuator's name and that index; for a servo its \<open>max_value\<close> and \<open>min_value\<close> are the two
  ends of the declared control range, for a motor its \<open>max_power\<close> is the upper end and its
  \<open>rolling_window_len\<close> is 2.
\<close>

theorem actuator_limits_reach_final_output:
  assumes "reconcile template sensors (apre @ r1 @ (an, aty, lo, hi) # r2 @ apost) = Inr final"
    and "TRANSMISSION_TYPES aty = Some ac"
    and "ac \<in> dom (output_caps template)"
    and "\<forall>d \<in> set apre \<union> set apost. TRANSMISSION_TYPES (fst (snd d)) \<noteq> Some ac"
    and "\<forall>d \<in> set r1 \<union> set r2. \<forall>c. TRANSMISSION_TYPES (fst (snd d)) = Some c \<longrightarrow>
           c = ac \<or> c \<notin> dom (output_caps template)"
  shows "\<exists>devs e.
           output_caps final ac = Some devs \<and>
           devs (str (length (filter (\<lambda>d. TRANSMISSION_TYPES (fst (snd d)) = Some ac) r1))) =
             Some e \<and>
           e ''custom_name'' = Some (JStr an) \<and>
           e ''feagi_index'' =
             Some (JInt (int (length
                (filter (\<lambda>d. TRANSMISSION_TYPES (fst (snd d)) = Some ac) r1)))) \<and>
           (ac = ''servo'' \<longrightarrow>
              e ''max_value'' = Some (JFloat hi) \<and> e ''min_value'' = Some (JFloat lo)) \<and>
           (ac = ''motor'' \<longrightarrow>
              e ''max_power'' = Some (JFloat hi) \<and> e ''rolling_window_len'' = Some (JInt 2))"
proof -
  let ?m = "length (filter (\<lambda>d. TRANSMISSION_TYPES (fst (snd d)) = Some ac) r1)"
  let ?d = "(an, aty, lo, hi)"
  from assms(1) obtain st
    where p: "actuator_pass template sensors (apre @ r1 @ ?d # r2 @ apost) = Inr st"
      and f: "final = prune (list_to_not_delete_device st) (capabilities st)"
    by (auto simp: reconcile_Inr)
  from p obtain sA where pA: "actuator_pass template sensors apre = Inr sA"
    and a1: "for_each actuator_step sA (r1 @ ?d # r2 @ apost) = Inr st"
    by (auto simp: actuator_pass_append split: sum.splits)
  from a1 obtain sR1 where l1: "for_each actuator_step sA r1 = Inr sR1"
    and a2: "for_each actuator_step sR1 (?d # r2 @ apost) = Inr st"
    by (auto simp: for_each_append split: sum.splits)
  from a2 obtain sD where step: "actuator_step sR1 ?d = Inr sD"
    and a3: "for_each actuator_step sD (r2 @ apost) = Inr st"
    by (auto split: sum.splits)
  from a3 obtain sR2 where l2: "for_each actuator_step sD r2 = Inr sR2"
    and l3: "for_each actuator_step sR2 apost = Inr st"
    by (auto simp: for_each_append split: sum.splits)
  \<comment> \<open>the state before the stretch\<close>
  have domA: "dom (output_caps (capabilities sA)) = dom (output_caps template)"
    by (rule actuator_pass_frame(2) [OF pA])
  with assms(3) obtain dA where dA: "output_caps (capabilities sA) ac = Some dA"
    by (metis domD)
  have freshA: "ac \<notin> set (list_to_not_delete_device sA)"
  proof
    assume "ac \<in> set (list_to_not_delete_device sA)"
    from actuator_pass_frame(4) [OF pA this] assms(4)
      transmission_not_sensing [OF assms(2)]
    show False by auto
  qed
  have cond1: "\<forall>d \<in> set r1. \<forall>c. TRANSMISSION_TYPES (fst (snd d)) = Some c \<longrightarrow>
           c = ac \<or> output_caps (capabilities sA) c = None"
    using assms(5) domA by (metis UnCI domIff)
  from actuator_loop_run [OF l1 cond1 dA] freshA obtain dR1
    where dR1: "output_caps (capabilities sR1) ac = Some dR1"
      and n1: "(if ac \<in> set (list_to_not_delete_device sR1) then increment sR1 + 1 else 0) = ?m"
    by auto
  \<comment> \<open>the actuator itself\<close>
  note rec = actuator_step_recorded [OF assms(2) dR1 step]
  note idx = actuator_step_index [OF assms(2) dR1 step]
  from idx(1) n1 have incD: "increment sD = ?m" by simp
  from rec(4) incD obtain base
    where t: "temp_copy_property_output sD =
           (set_limits ac (lo, hi) base)(''custom_name'' \<mapsto> JStr an,
                                 ''feagi_index'' \<mapsto> JInt (int ?m))"
    by auto
  have dD: "output_caps (capabilities sD) ac =
              Some (dR1(str ?m \<mapsto> temp_copy_property_output sD))"
    using dR1 incD by (simp add: rec(1) store_output_simps)
  \<comment> \<open>the rest of the stretch\<close>
  have pD: "actuator_pass template sensors (apre @ r1 @ [?d]) = Inr sD"
    using pA l1 step by (simp add: actuator_pass_append for_each_append)
  have domD: "dom (output_caps (capabilities sD)) = dom (output_caps template)"
    by (rule actuator_pass_frame(2) [OF pD])
  have cond2: "\<forall>d \<in> set r2. \<forall>c. TRANSMISSION_TYPES (fst (snd d)) = Some c \<longrightarrow>
           c = ac \<or> output_caps (capabilities sD) c = None"
    using assms(5) domD by (metis UnCI domIff)
  from actuator_loop_run [OF l2 cond2 dD] idx(2) incD obtain dR2
    where dR2: "output_caps (capabilities sR2) ac = Some dR2"
      and keep: "\<forall>k < ?m + 1. dR2 (str k) =
                   (dR1(str ?m \<mapsto> temp_copy_property_output sD)) (str k)"
      and seenR2: "ac \<in> set (list_to_not_delete_device sR2)"
    by auto
  from keep have e: "dR2 (str ?m) = Some (temp_copy_property_output sD)" by simp
  \<comment> \<open>the actuators after the stretch, and pruning\<close>
  have "\<forall>d \<in> set apost. TRANSMISSION_TYPES (fst (snd d)) \<noteq> Some ac"
    using assms(4) by simp
  from actuator_loop_other [OF l3 this] dR2
  have dst: "output_caps (capabilities st) ac = Some dR2" by simp
  from actuator_loop_frame [OF l3] seenR2
  have "ac \<in> set (list_to_not_delete_device st)" by blast
  with dst have "output_caps final ac = Some dR2" by (simp add: f prune_simps)
  with e stamped_limits [OF t] show ?thesis by blast
qed


theorem actuator_limits_reach_final_output_witness:
  "(\<exists>final devs e.
      reconcile template_ex sensors_ex
        ([(''m'', ''motor'', 0, 5)] @ [(''a'', ''position'', - 1, 1), (''v'', ''velocity'', 0, 9)] @
         (''b'', ''position'', - 2, 2) # [] @ []) = Inr final \<and>
      output_caps final ''servo'' = Some devs \<and> devs ''1'' = Some e \<and>
      e ''custom_name'' = Some (JStr ''b'') \<and> e ''feagi_index'' = Some (JInt 1) \<and>
      e ''max_value'' = Some (JFloat 2) \<and> e ''min_value'' = Some (JFloat (- 2))) \<and>
   (\<exists>final devs e.
      reconcile template_ex []
        ([(''a'', ''position'', - 1, 1)] @ [] @ (''m'', ''motor'', 0, 5) # [] @ []) = Inr final \<and>
      output_caps final ''motor'' = Some devs \<and> devs ''0'' = Some e \<and>
      e ''custom_name'' = Some (JStr ''m'') \<and> e ''feagi_index'' = Some (JInt 0) \<and>
      e ''max_power'' = Some (JFloat 5) \<and> e ''rolling_window_len'' = Some (JInt 2))"
proof -
  have tp: "TRANSMISSION_TYPES ''position'' = Some ''servo''"
    and tm: "TRANSMISSION_TYPES ''motor'' = Some ''motor''"
    by (simp_all add: TRANSMISSION_TYPES_def)
  have ds: "''servo'' \<in> dom (output_caps template_ex)"
    and dm: "''motor'' \<in> dom (output_caps template_ex)"
    by (simp_all add: template_ex_def)
  obtain final1 where r1: "reconcile template_ex sensors_ex
        ([(''m'', ''motor'', 0, 5)] @ [(''a'', ''position'', - 1, 1), (''v'', ''velocity'', 0, 9)] @
         (''b'', ''position'', - 2, 2) # [] @ []) = Inr final1"
    by (simp add: eval_defs)
  have h1: "\<forall>d \<in> set [(''m'', ''motor'', 0::real, 5::real)] \<union> set [].
              TRANSMISSION_TYPES (fst (snd d)) \<noteq> Some ''servo''"
    by (simp add: TRANSMISSION_TYPES_def)
  have h2: "\<forall>d \<in> set [(''a'', ''position'', - 1 :: real, 1::real), (''v'', ''velocity'', 0, 9)]
                   \<union> set [].
              \<forall>c. TRANSMISSION_TYPES (fst (snd d)) = Some c \<longrightarrow>
                c = ''servo'' \<or> c \<notin> dom (output_caps template_ex)"
    by (simp add: TRANSMISSION_TYPES_def)
  have m1: "length (filter (\<lambda>d. TRANSMISSION_TYPES (fst (snd d)) = Some ''servo'')
              [(''a'', ''position'', - 1 :: real, 1::real), (''v'', ''velocity'', 0, 9)]) = Suc 0"
    by (simp add: TRANSMISSION_TYPES_def)
  from actuator_limits_reach_final_output [OF r1 tp ds h1 h2, unfolded m1]
  have 1: "\<exists>devs e. output_caps final1 ''servo'' = Some devs \<and> devs ''1'' = Some e \<and>
      e ''custom_name'' = Some (JStr ''b'') \<and> e ''feagi_index'' = Some (JInt 1) \<and>
      e ''max_value'' = Some (JFloat 2) \<and> e ''min_value'' = Some (JFloat (- 2))"
    by (simp add: str_digits)
  obtain final2 where r2: "reconcile template_ex []
        ([(''a'', ''position'', - 1, 1)] @ [] @ (''m'', ''motor'', 0, 5) # [] @ []) = Inr final2"
    by (simp add: eval_defs)
  have h3: "\<forall>d \<in> set [(''a'', ''position'', - 1 :: real, 1::real)] \<union> set [].
              TRANSMISSION_TYPES (fst (snd d)) \<noteq> Some ''motor''"
    by (simp add: TRANSMISSION_TYPES_def)
  have h4: "\<forall>d \<in> set ([] :: (string \<times> string \<times> real \<times> real) list) \<union> set [].
              \<forall>c. TRANSMISSION_TYPES (fst (snd d)) = Some c \<longrightarrow>
                c = ''motor'' \<or> c \<notin> dom (output_caps template_ex)"
    by simp
  from actuator_limits_reach_final_output [OF r2 tm dm h3 h4]
  have 2: "\<exists>devs e. output_caps final2 ''motor'' = Some devs \<and> devs ''0'' = Some e \<and>
      e ''custom_name'' = Some (JStr ''m'') \<and> e ''feagi_index'' = Some (JInt 0) \<and>
      e ''max_power'' = Some (JFloat 5) \<and> e ''rolling_window_len'' = Some (JInt 2)"
    by (simp add: str_digits)
  from r1 1 r2 2 show ?thesis by blast
qed

text \<open>
  Claim C5 as the specification words it covers every discovered actuator. A position
  actuator in a scene whose template has no servo category in its output section is dropped:
  the final capabilities have no entry for it at all.
\<close>

theorem dropped_servo_counterexample:
  "reconcile (template_ex\<lparr>output_caps := Map.empty\<rparr>) [] [(''a'', ''position'', - 1, 1)] =
     Inr \<lparr>input_caps = Map.empty, output_caps = Map.empty\<rparr>"
  by (simp add: eval_defs)

text \<open>
  The one counter for all categories shows in the output section too. In \<open>actuators_ex\<close> the
  servo \<open>b\<close> is stored at index 1, the motor \<open>m\<close> resets the counter, and the servo \<open>c\<close>
  takes index 1 again: the final servo category has the entries of \<open>a\<close> and \<open>c\<close> and none
  of \<open>b\<close>, and the entry of \<open>c\<close>, copied from the motor's base record, carries a
  \<open>max_power\<close> beside its own limits.
\<close>

lemma interleaved_actuator_is_overwritten:
  "\<exists>final devs e0 e1.
     reconcile template_ex [] actuators_ex = Inr final \<and>
     output_caps final ''servo'' = Some devs \<and>
     dom devs = {''0'', ''1''} \<and>
     devs ''0'' = Some e0 \<and> e0 ''custom_name'' = Some (JStr ''a'') \<and>
     devs ''1'' = Some e1 \<and> e1 ''custom_name'' = Some (JStr ''c'') \<and>
     e1 ''max_value'' = Some (JFloat 3) \<and> e1 ''min_value'' = Some (JFloat (- 3)) \<and>
     e1 ''max_power'' = Some (JFloat 5)"
  by (simp add: eval_defs dom_def, blast)

end
